theory Spec2Isabelle
  imports Complex_Main "HOL-Library.Word" "HOL-Library.Monad_Syntax"
begin

section \<open>4-track tape looper: audio buffers and tracks\<close>

text \<open>
  The looper is a JavaScript program on the Web Audio API. JavaScript numbers and
  the samples of an AudioBuffer are modelled as reals, the finite floating-point
  values. Where a count or a key is derived from the result of an operation on
  doubles (the length of an export, the key of a cached impulse), the operation
  rounds as the machine does, with \<open>to_double\<close>; in the parameters of the nodes the
  rounding is left out. Frame counts, channel counts and sample rates are natural
  numbers. Gain nodes, filters and compressors are represented by the
  parameter values the program writes into them. Updates of the page (status
  line, indicators, alerts) are left out; a failure that the program reports
  through them is a value of an error type.
\<close>

subsection \<open>Doubles\<close>

text \<open>
  The nearest integer, the even one of two that are equally near.
\<close>

definition round_half_even :: "real \<Rightarrow> int" where
  "round_half_even x =
     (let f = \<lfloor>x\<rfloor>; d = x - of_int f
      in if d < 1 / 2 then f else if d > 1 / 2 then f + 1 else if even f then f else f + 1)"

text \<open>
  The result of an arithmetic operation on doubles: the exact result rounded to
  the nearest number with a significand of 53 bits (IEEE 754 binary64, round to
  nearest, ties to even). Overflow and subnormal numbers are left out: the numbers
  of the program are far from both.
\<close>

definition to_double :: "real \<Rightarrow> real" where
  "to_double x =
     (if x = 0 then 0
      else let e = \<lfloor>log 2 \<bar>x\<bar>\<rfloor>;
               ulp = 2 powr (of_int e - 52)
           in of_int (round_half_even (x / ulp)) * ulp)"

subsection \<open>AudioBuffer\<close>

text \<open>
  An AudioBuffer of the platform: \<open>channelData\<close> holds one sample list per
  channel. The field \<open>length\<close> of the platform object is \<open>length_frames\<close> here.
\<close>

record audio_buffer =
  numberOfChannels :: nat
  length_frames :: nat
  sampleRate :: nat
  channelData :: "real list list"

text \<open>
  What the platform guarantees of every AudioBuffer: at least one channel, at
  least one frame, a positive sample rate, and one sample per frame in every channel.
\<close>

definition wf_buffer :: "audio_buffer \<Rightarrow> bool" where
  "wf_buffer b \<longleftrightarrow>
     0 < numberOfChannels b \<and> 0 < length_frames b \<and> 0 < sampleRate b \<and>
     length (channelData b) = numberOfChannels b \<and>
     list_all (\<lambda>ch. length ch = length_frames b) (channelData b)"

text \<open>
  The attribute \<open>duration\<close> of the platform: the length divided by the sample rate,
  as a double.
\<close>

definition duration :: "audio_buffer \<Rightarrow> real" where
  "duration b = to_double (real (length_frames b) / real (sampleRate b))"

datatype dom_error = NotSupportedError | TypeError | RangeError | EncodingError

text \<open>
  \<open>ctx.createBuffer(channels, length, sampleRate)\<close>: a silent buffer; the platform
  throws NotSupportedError for zero channels or zero frames.
\<close>

definition createBuffer :: "nat \<Rightarrow> nat \<Rightarrow> nat \<Rightarrow> dom_error + audio_buffer" where
  "createBuffer n len rate =
     (if n = 0 \<or> len = 0 then Inl NotSupportedError
      else Inr \<lparr>numberOfChannels = n, length_frames = len, sampleRate = rate,
                channelData = replicate n (replicate len 0)\<rparr>)"

text \<open>
  The inner loop of \<open>Track.createReversedBuffer\<close>:
  \<open>for (i = 0; i < buffer.length; i++) reversedData[i] = originalData[buffer.length - 1 - i]\<close>.
  A write past the end of a typed array is ignored, as \<open>list_update\<close> does.
\<close>

definition reverseChannel :: "nat \<Rightarrow> real list \<Rightarrow> real list \<Rightarrow> real list" where
  "reverseChannel len originalData reversedData =
     fold (\<lambda>i rd. rd[i := originalData ! (len - 1 - i)]) [0..<len] reversedData"

text \<open>
  \<open>Track.createReversedBuffer(buffer)\<close>: a fresh buffer of the same shape, then the
  loop over the channels.
\<close>

definition createReversedBuffer :: "audio_buffer \<Rightarrow> dom_error + audio_buffer" where
  "createReversedBuffer buffer =
     (case createBuffer (numberOfChannels buffer) (length_frames buffer) (sampleRate buffer) of
        Inl e \<Rightarrow> Inl e
      | Inr reversed \<Rightarrow>
          Inr (reversed\<lparr>channelData :=
                 fold (\<lambda>channel cd.
                         cd[channel := reverseChannel (length_frames buffer)
                                         (channelData buffer ! channel) (cd ! channel)])
                      [0..<numberOfChannels buffer] (channelData reversed)\<rparr>))"

subsection \<open>Track\<close>

datatype track_mode = Normal | Loop

text \<open>
  The program compares buffers by object identity (\<open>source.buffer === this.audioBuffer\<close>).
  A playing voice therefore records which object it was given: the track's current
  \<open>audioBuffer\<close>, its current \<open>reversedBuffer\<close>, or a buffer the track has since replaced.
\<close>

datatype buffer_ref = AudioRef | ReversedRef | StaleRef

text \<open>The AudioBufferSourceNode of a playing voice.\<close>

record source_node =
  src_buffer :: buffer_ref
  src_playbackRate :: real
  src_detune_connected :: bool
  src_loop :: bool
  src_loopStart :: real
  src_loopEnd :: real

text \<open>A DynamicsCompressorNode, by its parameters.\<close>

record compressor =
  threshold :: real
  knee :: real
  ratio :: real
  attack :: real
  release :: real

record track =
  trackNumber :: nat
  isRecording :: bool
  audioBuffer :: "audio_buffer option"
  reversedBuffer :: "audio_buffer option"
  source :: "source_node option"
  isPlaying :: bool
  isMuted :: bool
  isSolo :: bool
  mode :: track_mode
  loopLength :: real
  playbackRate :: real
  isReversed :: bool
  startTime :: real
  hasAudio :: bool
  trimGain :: real
  gainBoost :: real
  eqLow :: real
  eqMid :: real
  eqHigh :: real
  channelFader :: real
  la2aCompressor :: compressor
  la2aMakeupGain :: real
  reverbSendGain :: real
  wowFlutterGain :: real

text \<open>The constructor of \<open>Track\<close> with \<open>createAudioNodes\<close> and \<open>setupTapeEffects\<close>.\<close>

definition newTrack :: "nat \<Rightarrow> track" where
  "newTrack n =
     \<lparr>trackNumber = n, isRecording = False, audioBuffer = None, reversedBuffer = None,
      source = None, isPlaying = False, isMuted = False, isSolo = False, mode = Loop,
      loopLength = 4, playbackRate = 1, isReversed = False, startTime = 0,
      hasAudio = False, trimGain = 1 / 2, gainBoost = 1, eqLow = 0, eqMid = 0, eqHigh = 0,
      channelFader = 8 / 10,
      la2aCompressor = \<lparr>threshold = - 24, knee = 12, ratio = 4, attack = 1 / 100,
                         release = 1 / 10\<rparr>,
      la2aMakeupGain = 1, reverbSendGain = 0, wowFlutterGain = 0\<rparr>"

definition stop :: "track \<Rightarrow> track" where
  "stop t = t\<lparr>source := None, isPlaying := False\<rparr>"

text \<open>
  \<open>Track.play(when = 0)\<close>; \<open>now\<close> is \<open>ctx.currentTime\<close> at the call, and
  \<open>when || ctx.currentTime\<close> takes the clock when \<open>when\<close> is 0.
\<close>

definition play :: "real \<Rightarrow> real \<Rightarrow> track \<Rightarrow> track" where
  "play when now t =
     (case audioBuffer t of
        None \<Rightarrow> t
      | Some ab \<Rightarrow>
          if isPlaying t then t
          else
            let t1 = stop t;
                src = \<lparr>src_buffer =
                         (if isReversed t1 \<and> reversedBuffer t1 \<noteq> None then ReversedRef
                          else AudioRef),
                       src_playbackRate = \<bar>playbackRate t1\<bar>,
                       src_detune_connected = (wowFlutterGain t1 > 0),
                       src_loop = (mode t1 = Loop),
                       src_loopStart = 0,
                       src_loopEnd =
                         (if mode t1 = Loop then min (loopLength t1) (duration ab) else 0)\<rparr>;
                startTime' = (if when \<noteq> 0 then when else now)
            in t1\<lparr>source := Some src, startTime := startTime', isPlaying := True\<rparr>)"

definition clear :: "track \<Rightarrow> track" where
  "clear t = (stop t)\<lparr>audioBuffer := None, reversedBuffer := None\<rparr>"

definition setTrimGain :: "real \<Rightarrow> track \<Rightarrow> track" where
  "setTrimGain v t = t\<lparr>trimGain := v\<rparr>"

definition setFader :: "real \<Rightarrow> track \<Rightarrow> track" where
  "setFader v t = t\<lparr>channelFader := v\<rparr>"

definition setGainBoost :: "real \<Rightarrow> track \<Rightarrow> track" where
  "setGainBoost v t = t\<lparr>gainBoost := v * 2\<rparr>"

text \<open>
  \<open>Track.setSpeed(normalizedValue)\<close>. \<open>Math.pow(4, x)\<close> is \<open>4 powr x\<close>. The second half
  updates the playing voice: a change of direction restarts it on the other buffer.
\<close>

definition setSpeed :: "real \<Rightarrow> real \<Rightarrow> track \<Rightarrow> track" where
  "setSpeed normalizedValue now t =
     (let wasPlaying = isPlaying t;
          t1 = (if normalizedValue = 0 then
                  t\<lparr>playbackRate := 1, isReversed := False\<rparr>
                else if normalizedValue > 0 then
                  t\<lparr>playbackRate := 4 powr (normalizedValue / 100), isReversed := False\<rparr>
                else
                  t\<lparr>playbackRate := 4 powr (\<bar>normalizedValue\<bar> / 100), isReversed := True\<rparr>)
      in case source t1 of
           None \<Rightarrow> t1
         | Some src \<Rightarrow>
             if isPlaying t1 then
               let needsBufferSwitch =
                     (wasPlaying \<and>
                      ((isReversed t1 \<and> src_buffer src = AudioRef) \<or>
                       (\<not> isReversed t1 \<and> src_buffer src = ReversedRef)))
               in if needsBufferSwitch then play 0 now (stop t1)
                  else t1\<lparr>source := Some (src\<lparr>src_playbackRate := \<bar>playbackRate t1\<bar>\<rparr>)\<rparr>
             else t1)"

definition setLA2APeakReduction :: "real \<Rightarrow> track \<Rightarrow> track" where
  "setLA2APeakReduction amount t =
     (let threshold' = - 10 - (amount * 30);
          ratio' = 3 + (amount * 5)
      in t\<lparr>la2aCompressor := (la2aCompressor t)\<lparr>threshold := threshold', ratio := ratio'\<rparr>\<rparr>)"

definition setLA2AGain :: "real \<Rightarrow> track \<Rightarrow> track" where
  "setLA2AGain amount t =
     (let gainDb = amount * 20;
          gainLinear = 10 powr (gainDb / 20)
      in t\<lparr>la2aMakeupGain := gainLinear\<rparr>)"

definition setMute :: "bool \<Rightarrow> track \<Rightarrow> track" where
  "setMute muted t = t\<lparr>isMuted := muted, channelFader := (if muted then 0 else 8 / 10)\<rparr>"

definition setSolo :: "bool \<Rightarrow> track \<Rightarrow> track" where
  "setSolo solo t = t\<lparr>isSolo := solo\<rparr>"

text \<open>
  Installing a new object in \<open>audioBuffer\<close> or \<open>reversedBuffer\<close> leaves a playing voice
  on the object it was given.
\<close>

definition replaced :: "buffer_ref \<Rightarrow> source_node option \<Rightarrow> source_node option" where
  "replaced r so =
     (case so of
        None \<Rightarrow> None
      | Some src \<Rightarrow> Some (if src_buffer src = r then src\<lparr>src_buffer := StaleRef\<rparr> else src))"

datatype decode_error = DecodeError

text \<open>
  \<open>Track.loadAudioFromBlob(blob)\<close>, which ends a recording. \<open>decoded\<close> is what
  \<open>ctx.decodeAudioData\<close> gave; the \<open>catch\<close> keeps whatever was assigned before the
  exception.
\<close>

definition loadAudioFromBlob :: "decode_error + audio_buffer \<Rightarrow> track \<Rightarrow> track" where
  "loadAudioFromBlob decoded t =
     (case decoded of
        Inl e \<Rightarrow> t
      | Inr ab \<Rightarrow>
          let t1 = t\<lparr>audioBuffer := Some ab, source := replaced AudioRef (source t),
                     loopLength := duration ab\<rparr>
          in (case createReversedBuffer ab of
                Inl e \<Rightarrow> t1
              | Inr rb \<Rightarrow>
                  t1\<lparr>reversedBuffer := Some rb, source := replaced ReversedRef (source t1)\<rparr>))"

text \<open>The \<open>onstop\<close> handler of the MediaRecorder: decode, then leave recording.\<close>

definition recordingStopped :: "decode_error + audio_buffer \<Rightarrow> track \<Rightarrow> track" where
  "recordingStopped decoded t = (loadAudioFromBlob decoded t)\<lparr>isRecording := False\<rparr>"

section \<open>Recorder\<close>

text \<open>
  The master bus by the values of its nodes. \<open>reverbCache\<close> is a JavaScript Map: its
  entries are kept in the order in which their keys were first inserted. The key
  \<open>x.toFixed(1)\<close> is the number of tenths.
\<close>

record recorder =
  tracks :: "track list"
  rec_isPlaying :: bool
  playStartTime :: real
  ctx_sampleRate :: nat
  masterGain :: real
  masterEQLow :: real
  masterEQMid :: real
  masterEQHigh :: real
  masterLA2A :: compressor
  masterLA2AMakeupGain :: real
  masterLimiter :: compressor
  reverbMix :: real
  reverbDry :: real
  masterReverbSize :: real
  masterReverb_buffer :: "audio_buffer option"
  reverbCache :: "(int \<times> audio_buffer) list"
  reverbSizeTimeout :: "real option"

subsection \<open>Transport, solo and the master compressor\<close>

definition rec_play :: "real \<Rightarrow> recorder \<Rightarrow> recorder" where
  "rec_play now r =
     (if rec_isPlaying r then r
      else r\<lparr>rec_isPlaying := True, playStartTime := now,
             tracks := map (\<lambda>track. if audioBuffer track \<noteq> None \<and> \<not> isMuted track
                                      then play 0 now track else track) (tracks r)\<rparr>)"

definition rec_stop :: "recorder \<Rightarrow> recorder" where
  "rec_stop r =
     (if \<not> rec_isPlaying r then r
      else r\<lparr>rec_isPlaying := False, tracks := map stop (tracks r)\<rparr>)"

text \<open>
  \<open>Recorder.handleSolo(trackNumber)\<close>. Outside the track list \<open>this.tracks[trackNumber]\<close>
  is undefined and reading \<open>isSolo\<close> throws.
\<close>

definition handleSolo :: "nat \<Rightarrow> recorder \<Rightarrow> dom_error + recorder" where
  "handleSolo trackNumber' r =
     (if trackNumber' \<ge> length (tracks r) then Inl TypeError
      else
        let track = tracks r ! trackNumber';
            ts = (tracks r)[trackNumber' := setSolo (\<not> isSolo track) track];
            anySolo = list_ex isSolo ts
        in Inr (r\<lparr>tracks :=
                  (if anySolo then map (\<lambda>t. if \<not> isSolo t then setMute True t else t) ts
                   else map (\<lambda>t. setMute (isMuted t) t) ts)\<rparr>))"

definition clearAll :: "recorder \<Rightarrow> recorder" where
  "clearAll r = (let r1 = rec_stop r in r1\<lparr>tracks := map clear (tracks r1)\<rparr>)"

definition setMasterVolume :: "real \<Rightarrow> recorder \<Rightarrow> recorder" where
  "setMasterVolume v r = r\<lparr>masterGain := v\<rparr>"

definition setMasterLA2APeakReduction :: "real \<Rightarrow> recorder \<Rightarrow> recorder" where
  "setMasterLA2APeakReduction amount r =
     (let threshold' = - 10 - (amount * 30);
          ratio' = 3 + (amount * 5)
      in r\<lparr>masterLA2A := (masterLA2A r)\<lparr>threshold := threshold', ratio := ratio'\<rparr>\<rparr>)"

definition setMasterLA2AGain :: "real \<Rightarrow> recorder \<Rightarrow> recorder" where
  "setMasterLA2AGain amount r =
     (let gainDb = amount * 20;
          gainLinear = 10 powr (gainDb / 20)
      in r\<lparr>masterLA2AMakeupGain := gainLinear\<rparr>)"

definition setMasterReverb :: "real \<Rightarrow> recorder \<Rightarrow> recorder" where
  "setMasterReverb amount r = r\<lparr>reverbMix := amount, reverbDry := 1 - amount\<rparr>"

subsection \<open>The reverb impulse cache\<close>

text \<open>\<open>x.toFixed(1)\<close> for \<open>x \<ge> 0\<close>: the nearest number of tenths, the larger one on a tie.\<close>

definition toFixed1 :: "real \<Rightarrow> int" where
  "toFixed1 x = \<lfloor>x * 10 + 1 / 2\<rfloor>"







text \<open>
  \<open>Recorder.setMasterReverbSize(amount)\<close>: a cached impulse is attached at once;
  otherwise the request waits in the 500 ms timer, replacing the one that waited.
\<close>

definition setMasterReverbSize :: "real \<Rightarrow> recorder \<Rightarrow> recorder" where
  "setMasterReverbSize amount r =
     (let decayTime = to_double (1 / 2 + to_double (amount * (445 / 10)));
          r1 = r\<lparr>masterReverbSize := decayTime\<rparr>;
          cacheKey = toFixed1 decayTime
      in case map_of (reverbCache r1) cacheKey of
           Some b \<Rightarrow> r1\<lparr>masterReverb_buffer := Some b\<rparr>
         | None \<Rightarrow> r1\<lparr>reverbSizeTimeout := Some decayTime\<rparr>)"

subsection \<open>Loading a file\<close>

text \<open>
  \<open>Recorder.loadFileToTrack(trackNumber, file)\<close>; \<open>decoded\<close> is the outcome of reading
  and decoding the file, \<open>now\<close> the clock for the automatic start.
\<close>

definition loadFileToTrack ::
  "int \<Rightarrow> decode_error + audio_buffer \<Rightarrow> real \<Rightarrow> recorder \<Rightarrow> recorder" where
  "loadFileToTrack trackNumber' decoded now r =
     (if trackNumber' < 0 \<or> trackNumber' \<ge> int (length (tracks r)) then r
      else
        let k = nat trackNumber';
            track = tracks r ! k
        in case decoded of
             Inl e \<Rightarrow> r
           | Inr ab \<Rightarrow>
               let t1 = track\<lparr>audioBuffer := Some ab,
                              source := replaced AudioRef (source track),
                              loopLength := duration ab, hasAudio := True\<rparr>
               in (case createReversedBuffer ab of
                     Inl e \<Rightarrow> r\<lparr>tracks := (tracks r)[k := t1]\<rparr>
                   | Inr rb \<Rightarrow>
                       let t2 = t1\<lparr>reversedBuffer := Some rb,
                                   source := replaced ReversedRef (source t1)\<rparr>;
                           t3 = (if \<not> isPlaying t2 then play 0 now t2 else t2)
                       in r\<lparr>tracks := (tracks r)[k := t3]\<rparr>))"

subsection \<open>Writing a WAV file\<close>

text \<open>
  The ArrayBuffer under the DataView is a list of bytes. A setter of the DataView
  replaces the bytes at its offset and throws RangeError (\<open>None\<close>) when they do not
  fit. Integers are reduced modulo their width, as the setters do.
\<close>

type_synonym byte = "8 word"

definition setBytes :: "nat \<Rightarrow> byte list \<Rightarrow> byte list \<Rightarrow> byte list option" where
  "setBytes byteOffset bs view =
     (if byteOffset + length bs \<le> length view
      then Some (take byteOffset view @ bs @ drop (byteOffset + length bs) view)
      else None)"

definition bytes16 :: "int \<Rightarrow> bool \<Rightarrow> byte list" where
  "bytes16 v littleEndian =
     (let le = [of_int (v mod 256), of_int (v div 256 mod 256)]
      in if littleEndian then le else rev le)"

definition bytes32 :: "int \<Rightarrow> bool \<Rightarrow> byte list" where
  "bytes32 v littleEndian =
     (let le = [of_int (v mod 256), of_int (v div 256 mod 256),
                of_int (v div 65536 mod 256), of_int (v div 16777216 mod 256)]
      in if littleEndian then le else rev le)"

definition setUint8 :: "nat \<Rightarrow> nat \<Rightarrow> byte list \<Rightarrow> byte list option" where
  "setUint8 byteOffset v view = setBytes byteOffset [of_nat (v mod 256)] view"

definition setUint16 :: "nat \<Rightarrow> nat \<Rightarrow> bool \<Rightarrow> byte list \<Rightarrow> byte list option" where
  "setUint16 byteOffset v littleEndian view =
     setBytes byteOffset (bytes16 (int v) littleEndian) view"

definition setUint32 :: "nat \<Rightarrow> nat \<Rightarrow> bool \<Rightarrow> byte list \<Rightarrow> byte list option" where
  "setUint32 byteOffset v littleEndian view =
     setBytes byteOffset (bytes32 (int v) littleEndian) view"

text \<open>The conversion of a number to an integer: the fraction is dropped.\<close>

definition toInteger :: "real \<Rightarrow> int" where
  "toInteger x = (if x < 0 then \<lceil>x\<rceil> else \<lfloor>x\<rfloor>)"

definition setInt16 :: "nat \<Rightarrow> real \<Rightarrow> bool \<Rightarrow> byte list \<Rightarrow> byte list option" where
  "setInt16 byteOffset v littleEndian view =
     setBytes byteOffset (bytes16 (toInteger v) littleEndian) view"

text \<open>A loop whose body may throw.\<close>

fun forEach :: "'a list \<Rightarrow> ('a \<Rightarrow> 's \<Rightarrow> 's option) \<Rightarrow> 's \<Rightarrow> 's option" where
  "forEach [] body s = Some s"
| "forEach (x # xs) body s =
     (case body x s of None \<Rightarrow> None | Some s' \<Rightarrow> forEach xs body s')"

text \<open>
  The local function \<open>writeString(offset, string)\<close> of \<open>bufferToWav\<close>:
  \<open>view.setUint8(offset + i, string.charCodeAt(i))\<close> for every index of the string.
\<close>

definition writeString :: "nat \<Rightarrow> string \<Rightarrow> byte list \<Rightarrow> byte list option" where
  "writeString byteOffset string view =
     forEach [0..<length string]
       (\<lambda>i v. setUint8 (byteOffset + i) (of_char (string ! i)) v) view"

text \<open>
  The body of the inner loop of \<open>bufferToWav\<close>, on the view and the running offset.
\<close>

definition writeSample ::
  "audio_buffer \<Rightarrow> nat \<Rightarrow> nat \<Rightarrow> byte list \<times> nat \<Rightarrow> (byte list \<times> nat) option" where
  "writeSample buffer i channel st =
     (let (view, byteOffset) = st;
          sample = channelData buffer ! channel ! i;
          clampedSample = max (- 1) (min 1 sample)
      in case setInt16 byteOffset (clampedSample * 32767) True view of
           None \<Rightarrow> None
         | Some view' \<Rightarrow> Some (view', byteOffset + 2))"

text \<open>\<open>Recorder.bufferToWav(buffer)\<close>.\<close>

definition bufferToWav :: "audio_buffer \<Rightarrow> byte list option" where
  "bufferToWav buffer =
     (let len = length_frames buffer * numberOfChannels buffer * 2;
          arrayBuffer = replicate (44 + len) (0 :: byte)
      in do {
           v \<leftarrow> writeString 0 ''RIFF'' arrayBuffer;
           v \<leftarrow> setUint32 4 (36 + len) True v;
           v \<leftarrow> writeString 8 ''WAVE'' v;
           v \<leftarrow> writeString 12 ''fmt '' v;
           v \<leftarrow> setUint32 16 16 True v;
           v \<leftarrow> setUint16 20 1 True v;
           v \<leftarrow> setUint16 22 (numberOfChannels buffer) True v;
           v \<leftarrow> setUint32 24 (sampleRate buffer) True v;
           v \<leftarrow> setUint32 28 (sampleRate buffer * numberOfChannels buffer * 2) True v;
           v \<leftarrow> setUint16 32 (numberOfChannels buffer * 2) True v;
           v \<leftarrow> setUint16 34 16 True v;
           v \<leftarrow> writeString 36 ''data'' v;
           v \<leftarrow> setUint32 40 len True v;
           st \<leftarrow> forEach [0..<length_frames buffer]
                   (\<lambda>i. forEach [0..<numberOfChannels buffer] (writeSample buffer i))
                   (v, 44);
           Some (fst st)
         })"

subsection \<open>Exporting the mix\<close>

text \<open>
  The graph that \<open>exportMix\<close> builds in an OfflineAudioContext: one buffer source
  with its own gain per rendered track, all into the master gain and the limiter.
\<close>

record offline_source =
  os_buffer :: audio_buffer
  os_gain :: real

record offline_context =
  oc_numberOfChannels :: nat
  oc_length :: nat
  oc_sampleRate :: nat
  oc_masterGain :: real
  oc_limiter :: compressor
  oc_sources :: "offline_source list"

datatype export_error = NoAudio | ExportFailed

text \<open>The first loop of \<open>exportMix\<close>: the longest duration among the loaded tracks.\<close>

definition maxDuration :: "track list \<Rightarrow> real" where
  "maxDuration ts =
     fold (\<lambda>track m. case audioBuffer track of None \<Rightarrow> m | Some ab \<Rightarrow> max m (duration ab))
       ts 0"

text \<open>The second loop: a source for every track that has audio and is not muted.\<close>

definition renderSources :: "track list \<Rightarrow> offline_source list" where
  "renderSources ts =
     concat (map (\<lambda>track.
                    case audioBuffer track of
                      None \<Rightarrow> []
                    | Some ab \<Rightarrow>
                        if \<not> isMuted track
                        then [\<lparr>os_buffer = ab, os_gain = channelFader track\<rparr>]
                        else []) ts)"

text \<open>
  \<open>exportMix\<close> up to the rendering. The length \<open>maxDuration * sampleRate\<close> is a
  product of doubles and becomes an unsigned 32-bit integer without its fraction;
  the constructor throws for 0 frames, which the \<open>catch\<close> reports as a failed
  export.
\<close>

definition exportGraph :: "recorder \<Rightarrow> export_error + offline_context" where
  "exportGraph r =
     (let m = maxDuration (tracks r)
      in if m = 0 then Inl NoAudio
         else
           let sampleRate' = 44100;
               len = nat (toInteger (to_double (m * real sampleRate'))) mod 2 ^ 32
           in if len = 0 then Inl ExportFailed
              else Inr \<lparr>oc_numberOfChannels = 2, oc_length = len, oc_sampleRate = sampleRate',
                        oc_masterGain = masterGain r, oc_limiter = masterLimiter r,
                        oc_sources = renderSources (tracks r)\<rparr>)"

text \<open>
  \<open>offlineCtx.startRendering()\<close>: the platform renders the graph. \<open>dsp\<close> stands for
  its signal processing and gives the samples of the two channels, or fails; the
  shape of the rendered buffer is that of the context.
\<close>

definition startRendering ::
  "(offline_context \<Rightarrow> real list list option) \<Rightarrow> offline_context \<Rightarrow> audio_buffer option" where
  "startRendering dsp oc =
     (case dsp oc of
        None \<Rightarrow> None
      | Some cd \<Rightarrow>
          Some \<lparr>numberOfChannels = oc_numberOfChannels oc, length_frames = oc_length oc,
                sampleRate = oc_sampleRate oc, channelData = cd\<rparr>)"

text \<open>\<open>Recorder.exportMix()\<close>: the recorder after it, and the bytes of the file.\<close>

definition exportMix ::
  "(offline_context \<Rightarrow> real list list option) \<Rightarrow> recorder \<Rightarrow>
     recorder \<times> (export_error + byte list)" where
  "exportMix dsp r =
     (let r1 = rec_stop r
      in case exportGraph r1 of
           Inl e \<Rightarrow> (r1, Inl e)
         | Inr oc \<Rightarrow>
             (case startRendering dsp oc of
                None \<Rightarrow> (r1, Inl ExportFailed)
              | Some renderedBuffer \<Rightarrow>
                  (case bufferToWav renderedBuffer of
                     None \<Rightarrow> (r1, Inl ExportFailed)
                   | Some wav \<Rightarrow> (r1, Inr wav))))"

section \<open>Cassette tape bus: dropout scheduling\<close>

text \<open>
  The timers of the page are part of the state: \<open>timers\<close> holds every pending timeout
  of the bus with the time at which it is due, in milliseconds on \<open>clock\<close>.
  \<open>Math.random()\<close> is an argument, a number in \<open>[0, 1)\<close>. \<open>dropoutLog\<close> collects the
  dropouts that \<open>triggerDropout\<close> has written to the dropout gain.
\<close>

record dropout_event =
  ev_time :: real
  ev_duration :: real
  ev_depth :: real

record tape_bus =
  bypassed :: bool
  dropoutSchedulerId :: "nat option"
  dropoutIntensity :: real
  wetGain :: real
  bypassGain :: real
  timers :: "(nat \<times> real) list"
  nextTimerId :: nat
  clock :: real
  dropoutLog :: "dropout_event list"

text \<open>The constructor with \<open>initDefaults\<close>; timer ids of the page start at 1.\<close>

definition newTapeBus :: tape_bus where
  "newTapeBus =
     \<lparr>bypassed = False, dropoutSchedulerId = None, dropoutIntensity = 0, wetGain = 1,
      bypassGain = 0, timers = [], nextTimerId = 1, clock = 0, dropoutLog = []\<rparr>"

definition setTimeout :: "real \<Rightarrow> tape_bus \<Rightarrow> nat \<times> tape_bus" where
  "setTimeout interval s =
     (nextTimerId s,
      s\<lparr>timers := timers s @ [(nextTimerId s, clock s + max 0 interval)],
        nextTimerId := Suc (nextTimerId s)\<rparr>)"

definition clearTimeout :: "nat \<Rightarrow> tape_bus \<Rightarrow> tape_bus" where
  "clearTimeout timerId s = s\<lparr>timers := filter (\<lambda>e. fst e \<noteq> timerId) (timers s)\<rparr>"

text \<open>\<open>CassetteTapeBus.scheduleDropout()\<close>; \<open>rnd\<close> is its one call of \<open>Math.random()\<close>.\<close>

definition scheduleDropout :: "real \<Rightarrow> tape_bus \<Rightarrow> tape_bus" where
  "scheduleDropout rnd s =
     (if dropoutIntensity s \<le> 0 \<or> bypassed s then s
      else
        let baseInterval = 15000 - (dropoutIntensity s * 12000);
            interval = baseInterval + rnd * 5000;
            (timerId, s1) = setTimeout interval s
        in s1\<lparr>dropoutSchedulerId := Some timerId\<rparr>)"

text \<open>\<open>CassetteTapeBus.setDropouts(value)\<close>.\<close>

definition setDropouts :: "real \<Rightarrow> real \<Rightarrow> tape_bus \<Rightarrow> tape_bus" where
  "setDropouts v rnd s =
     (let s1 = s\<lparr>dropoutIntensity := v / 100\<rparr>;
          s2 = (case dropoutSchedulerId s1 of
                  None \<Rightarrow> s1
                | Some timerId \<Rightarrow> (clearTimeout timerId s1)\<lparr>dropoutSchedulerId := None\<rparr>)
      in if dropoutIntensity s2 > 0 then scheduleDropout rnd s2 else s2)"

text \<open>
  \<open>CassetteTapeBus.triggerDropout()\<close>, with its two random numbers: the dip of the
  dropout gain is recorded with its time, duration and depth.
\<close>

definition triggerDropout :: "real \<Rightarrow> real \<Rightarrow> tape_bus \<Rightarrow> tape_bus" where
  "triggerDropout rndDuration rndDepth s =
     (if bypassed s then s
      else
        let duration' = 1 / 100 + (rndDuration * (7 / 100) * dropoutIntensity s);
            depth = 1 / 10 + (rndDepth * (6 / 10) * dropoutIntensity s)
        in s\<lparr>dropoutLog := dropoutLog s @
               [\<lparr>ev_time = clock s, ev_duration = duration', ev_depth = depth\<rparr>]\<rparr>)"

text \<open>
  A pending timeout of \<open>scheduleDropout\<close> comes due: the clock is at its time, the
  timeout is spent, and its callback runs \<open>triggerDropout\<close> and \<open>scheduleDropout\<close>.
  Nothing fires for an id that is not pending.
\<close>

definition timerFired :: "nat \<Rightarrow> real \<times> real \<times> real \<Rightarrow> tape_bus \<Rightarrow> tape_bus option" where
  "timerFired timerId rnds s =
     (case map_of (timers s) timerId of
        None \<Rightarrow> None
      | Some due \<Rightarrow>
          let (rndDuration, rndDepth, rnd) = rnds;
              s1 = s\<lparr>timers := filter (\<lambda>e. fst e \<noteq> timerId) (timers s),
                     clock := max (clock s) due\<rparr>
          in Some (scheduleDropout rnd (triggerDropout rndDuration rndDepth s1)))"

text \<open>\<open>CassetteTapeBus.setBypass(bypassed)\<close>; the gains are the targets of the 20 ms ramps.\<close>

definition setBypass :: "bool \<Rightarrow> real \<Rightarrow> tape_bus \<Rightarrow> tape_bus" where
  "setBypass b rnd s =
     (let s1 = s\<lparr>bypassed := b\<rparr>
      in if b then
           (let s2 = s1\<lparr>wetGain := 0, bypassGain := 1\<rparr>
            in case dropoutSchedulerId s2 of
                 None \<Rightarrow> s2
               | Some timerId \<Rightarrow> (clearTimeout timerId s2)\<lparr>dropoutSchedulerId := None\<rparr>)
         else
           (let s2 = s1\<lparr>wetGain := 1, bypassGain := 0\<rparr>
            in if dropoutIntensity s2 > 0 then scheduleDropout rnd s2 else s2))"

text \<open>
  The timeouts that come due one after the other, each with the random numbers its
  callback draws: the oldest pending timeout fires.
\<close>

fun timersFired :: "(real \<times> real \<times> real) list \<Rightarrow> tape_bus \<Rightarrow> tape_bus option" where
  "timersFired [] s = Some s"
| "timersFired (rnds # rest) s =
     (case timers s of
        [] \<Rightarrow> None
      | e # _ \<Rightarrow> (case timerFired (fst e) rnds s of
                    None \<Rightarrow> None
                  | Some s' \<Rightarrow> timersFired rest s'))"

text \<open>
  The pending timeouts are under the control of the bus: there is at most one, and
  it is the one recorded in \<open>dropoutSchedulerId\<close>.
\<close>

definition single_chain :: "tape_bus \<Rightarrow> bool" where
  "single_chain s =
     (case timers s of
        [] \<Rightarrow> True
      | [e] \<Rightarrow> dropoutSchedulerId s = Some (fst e)
      | _ \<Rightarrow> False)"

text \<open>
  Every time of the list is at least 3000 and less than 8000 after the one before
  it, the first one after \<open>t0\<close>.
\<close>

fun gaps_within :: "real \<Rightarrow> real list \<Rightarrow> bool" where
  "gaps_within t0 [] = True"
| "gaps_within t0 (t # ts) = (3000 \<le> t - t0 \<and> t - t0 < 8000 \<and> gaps_within t ts)"

definition unit_random :: "real \<Rightarrow> bool" where
  "unit_random x \<longleftrightarrow> 0 \<le> x \<and> x < 1"

section \<open>Auxiliary definitions\<close>

subsection \<open>The recorder at start\<close>

text \<open>
  \<open>Recorder.init\<close> with \<open>createMasterBus\<close>: four tracks and the master bus at its
  defaults. \<open>impulse\<close> is the short random impulse response that the constructor
  generates for the convolver.
\<close>

definition newRecorder :: "nat \<Rightarrow> audio_buffer \<Rightarrow> recorder" where
  "newRecorder rate impulse =
     \<lparr>tracks = map newTrack [0..<4], rec_isPlaying = False, playStartTime = 0,
      ctx_sampleRate = rate, masterGain = 8 / 10, masterEQLow = 0, masterEQMid = 0,
      masterEQHigh = 0,
      masterLA2A = \<lparr>threshold = - 24, knee = 12, ratio = 4, attack = 1 / 100,
                     release = 1 / 10\<rparr>,
      masterLA2AMakeupGain = 1,
      masterLimiter = \<lparr>threshold = - (1 / 2), knee = 0, ratio = 20, attack = 1 / 1000,
                        release = 1 / 100\<rparr>,
      reverbMix = 15 / 100, reverbDry = 85 / 100, masterReverbSize = 7,
      masterReverb_buffer = Some impulse, reverbCache = [], reverbSizeTimeout = None\<rparr>"

subsection \<open>The bytes of a WAV file\<close>

text \<open>
  \<open>filled N pre\<close> is an ArrayBuffer of \<open>N\<close> bytes of which the first ones have been
  written: \<open>pre\<close>, then zeros.
\<close>

definition filled :: "nat \<Rightarrow> byte list \<Rightarrow> byte list" where
  "filled N pre = pre @ replicate (N - length pre) 0"

text \<open>The bytes that \<open>writeString\<close> writes for a string.\<close>

definition charCodes :: "string \<Rightarrow> byte list" where
  "charCodes s = map (\<lambda>c. of_nat (of_char c mod 256)) s"

text \<open>The two bytes of sample \<open>i\<close> of a channel, and all of them in the order of the file.\<close>

definition sampleBytes :: "audio_buffer \<Rightarrow> nat \<Rightarrow> nat \<Rightarrow> byte list" where
  "sampleBytes buffer i channel =
     bytes16 (toInteger (max (- 1) (min 1 (channelData buffer ! channel ! i)) * 32767)) True"

definition wavData :: "audio_buffer \<Rightarrow> byte list" where
  "wavData buffer =
     concat (map (\<lambda>i. concat (map (sampleBytes buffer i) [0..<numberOfChannels buffer]))
               [0..<length_frames buffer])"

text \<open>The 44 bytes before the samples.\<close>

definition wavHeader :: "audio_buffer \<Rightarrow> byte list" where
  "wavHeader buffer =
     (let len = length_frames buffer * numberOfChannels buffer * 2
      in charCodes ''RIFF'' @ bytes32 (int (36 + len)) True @ charCodes ''WAVE'' @
         charCodes ''fmt '' @ bytes32 16 True @ bytes16 1 True @
         bytes16 (int (numberOfChannels buffer)) True @
         bytes32 (int (sampleRate buffer)) True @
         bytes32 (int (sampleRate buffer * numberOfChannels buffer * 2)) True @
         bytes16 (int (numberOfChannels buffer * 2)) True @ bytes16 16 True @
         charCodes ''data'' @ bytes32 (int len) True)"

text \<open>
  Reading a file back, as the getters of a DataView do: an unsigned number from its
  bytes, least significant first, and a 16-bit number as two's complement.
\<close>

fun unsigned :: "byte list \<Rightarrow> nat" where
  "unsigned [] = 0"
| "unsigned (b # bs) = unat b + 256 * unsigned bs"

definition getUint16 :: "byte list \<Rightarrow> nat \<Rightarrow> bool \<Rightarrow> nat" where
  "getUint16 view byteOffset littleEndian =
     (let bs = take 2 (drop byteOffset view)
      in unsigned (if littleEndian then bs else rev bs))"

definition getUint32 :: "byte list \<Rightarrow> nat \<Rightarrow> bool \<Rightarrow> nat" where
  "getUint32 view byteOffset littleEndian =
     (let bs = take 4 (drop byteOffset view)
      in unsigned (if littleEndian then bs else rev bs))"

definition getInt16 :: "byte list \<Rightarrow> nat \<Rightarrow> bool \<Rightarrow> int" where
  "getInt16 view byteOffset littleEndian =
     (let u = int (getUint16 view byteOffset littleEndian)
      in if u \<ge> 32768 then u - 65536 else u)"

definition getString :: "byte list \<Rightarrow> nat \<Rightarrow> nat \<Rightarrow> string" where
  "getString view byteOffset n = map (\<lambda>b. char_of (unat b)) (take n (drop byteOffset view))"

text \<open>
  A RIFF file holds its sizes in 32 bits: the buffers whose file and byte rate fit.
\<close>

definition riff_sized :: "audio_buffer \<Rightarrow> bool" where
  "riff_sized b \<longleftrightarrow>
     44 + length_frames b * numberOfChannels b * 2 < 4294967296 \<and>
     sampleRate b * numberOfChannels b * 2 < 4294967296"

subsection \<open>Export without the muted tracks\<close>

text \<open>The recorder with every muted track cleared, as \<open>Track.clear\<close> does.\<close>

definition without_muted :: "recorder \<Rightarrow> recorder" where
  "without_muted r = r\<lparr>tracks := map (\<lambda>t. if isMuted t then clear t else t) (tracks r)\<rparr>"

subsection \<open>The impulse cache and the dropout timers\<close>









text \<open>
  The bus at full dropout intensity with its one timeout pending, due at least 3000
  and less than 8000 ms from now.
\<close>

definition chain_armed :: "tape_bus \<Rightarrow> bool" where
  "chain_armed s \<longleftrightarrow>
     dropoutIntensity s = 1 \<and> \<not> bypassed s \<and>
     (case timers s of
        [e] \<Rightarrow> dropoutSchedulerId s = Some (fst e) \<and>
               3000 \<le> snd e - clock s \<and> snd e - clock s < 8000
      | _ \<Rightarrow> False)"

subsection \<open>Sample inputs\<close>

text \<open>
  A bus on which the dropouts are set to 50, bypass is switched off although it is
  off, and the dropouts are set to 0.
\<close>

definition orphan_timeout :: tape_bus where
  "orphan_timeout =
     setDropouts 0 (1 / 4) (setBypass False (1 / 4) (setDropouts 50 (1 / 2) newTapeBus))"

definition demo_buffer :: audio_buffer where
  "demo_buffer = \<lparr>numberOfChannels = 2, length_frames = 3, sampleRate = 44100,
                   channelData = [[1, 2, 3], [4, 5, 6]]\<rparr>"

definition demo_stereo :: audio_buffer where
  "demo_stereo = \<lparr>numberOfChannels = 2, length_frames = 2, sampleRate = 44100,
                   channelData = [[1 / 2, - 2], [1, - (1 / 4)]]\<rparr>"

definition silence :: "nat \<Rightarrow> audio_buffer" where
  "silence n = \<lparr>numberOfChannels = 1, length_frames = n, sampleRate = 44100,
                 channelData = [replicate n 0]\<rparr>"

definition demo_recorder :: recorder where
  "demo_recorder = newRecorder 44100 (silence 22050)"


text \<open>
  Two loaded tracks, the second one muted: once the muted track is the longer one,
  once the shorter one.
\<close>

definition muted_longer :: recorder where
  "muted_longer =
     demo_recorder
       \<lparr>tracks := [(newTrack 0)\<lparr>audioBuffer := Some (silence 44100)\<rparr>,
                   setMute True ((newTrack 1)\<lparr>audioBuffer := Some (silence 88200)\<rparr>),
                   newTrack 2, newTrack 3]\<rparr>"

definition muted_shorter :: recorder where
  "muted_shorter =
     demo_recorder
       \<lparr>tracks := [(newTrack 0)\<lparr>audioBuffer := Some (silence 88200)\<rparr>,
                   setMute True ((newTrack 1)\<lparr>audioBuffer := Some (silence 44100)\<rparr>),
                   newTrack 2, newTrack 3]\<rparr>"

text \<open>A renderer that gives silence of the length of its context.\<close>

definition silent_render :: "offline_context \<Rightarrow> real list list option" where
  "silent_render oc = Some (replicate (oc_numberOfChannels oc) (replicate (oc_length oc) 0))"

text \<open>
  Two seconds of the constant 0.5 on one channel, loaded into the first track of a
  new recorder.
\<close>

definition half_tone :: audio_buffer where
  "half_tone = \<lparr>numberOfChannels = 1, length_frames = 96000, sampleRate = 48000,
                 channelData = [replicate 96000 (1 / 2)]\<rparr>"

definition one_track_loaded :: recorder where
  "one_track_loaded = loadFileToTrack 0 (Inr half_tone) 0 demo_recorder"

text \<open>A recorder whose only audio is a track of 15 frames at 44100 Hz.\<close>

definition fifteen_frames :: recorder where
  "fifteen_frames =
     demo_recorder
       \<lparr>tracks := [(newTrack 0)\<lparr>audioBuffer := Some (silence 15)\<rparr>,
                   newTrack 1, newTrack 2, newTrack 3]\<rparr>"
section \<open>Properties of the tracks\<close>

subsection \<open>Doubles\<close>

lemma round_half_even_int [simp]: "round_half_even (of_int m) = m"
  by (simp add: round_half_even_def)

lemma to_double_binade:
  assumes "2 powr of_int k \<le> \<bar>x\<bar>" and "\<bar>x\<bar> < 2 powr (of_int k + 1)"
  shows "to_double x =
           of_int (round_half_even (x / 2 powr (of_int k - 52))) * 2 powr (of_int k - 52)"
proof -
  have "(0::real) < 2 powr of_int k"
    by simp
  then have pos: "0 < \<bar>x\<bar>"
    using assms(1) by (rule less_le_trans)
  have "\<lfloor>log 2 \<bar>x\<bar>\<rfloor> = k"
    using floor_log_eq_powr_iff [of "\<bar>x\<bar>" 2 k] pos assms by simp
  then show ?thesis
    using pos by (simp add: to_double_def Let_def)
qed

lemma to_double_exact:
  assumes "2 powr of_int k \<le> \<bar>x\<bar>" and "\<bar>x\<bar> < 2 powr (of_int k + 1)"
    and "x / 2 powr (of_int k - 52) = of_int m"
  shows "to_double x = x"
proof -
  have "to_double x = of_int m * 2 powr (of_int k - 52)"
    using to_double_binade [OF assms(1,2)] assms(3) by simp
  also have "\<dots> = x"
    using assms(3) by (simp add: field_simps)
  finally show ?thesis .
qed

lemma to_double_1: "to_double 1 = 1"
  by (rule to_double_exact [of 0 _ "2 ^ 52"]) (simp_all add: powr_neg_numeral)

lemma to_double_2: "to_double 2 = 2"
  by (rule to_double_exact [of 1 _ "2 ^ 52"]) (simp_all add: powr_neg_numeral)

lemma to_double_44100: "to_double 44100 = 44100"
  by (rule to_double_exact [of 15 _ "44100 * 2 ^ 37"]) (simp_all add: powr_neg_numeral)

lemma to_double_88200: "to_double 88200 = 88200"
  by (rule to_double_exact [of 16 _ "88200 * 2 ^ 36"]) (simp_all add: powr_neg_numeral)

lemma to_double_15_44100:
  "to_double (15 / 44100) = 6274402746159711 / 18446744073709551616"
proof -
  have "to_double (15 / 44100) =
      of_int (round_half_even ((15 / 44100) / 2 powr (of_int (- 12) - 52))) *
        2 powr (of_int (- 12) - 52)"
    by (rule to_double_binade) (simp_all add: powr_neg_numeral)
  then show ?thesis
    by (simp add: powr_neg_numeral round_half_even_def Let_def)
qed

lemma to_double_15_product:
  "to_double (6274402746159711 / 18446744073709551616 * 44100) =
     8444249301319679 / 562949953421312"
proof -
  let ?x = "6274402746159711 / 18446744073709551616 * 44100 :: real"
  have "to_double ?x =
      of_int (round_half_even (?x / 2 powr (of_int 3 - 52))) * 2 powr (of_int 3 - 52)"
    by (rule to_double_binade) (simp_all add: powr_neg_numeral)
  then show ?thesis
    by (simp add: powr_neg_numeral round_half_even_def Let_def)
qed

subsection \<open>The reversed buffer\<close>

lemma fold_update_length:
  "length (fold (\<lambda>i rd. rd[i := f i rd]) [0..<k] rd) = length rd"
  by (induction k) simp_all

lemma fold_update_const_nth:
  "i < length rd \<Longrightarrow>
   fold (\<lambda>i rd. rd[i := f i]) [0..<k] rd ! i = (if i < k then f i else rd ! i)"
  by (induction k) (auto simp: fold_update_length nth_list_update less_Suc_eq)

lemma fold_update_self_nth:
  "c < length cd \<Longrightarrow>
   fold (\<lambda>channel cd. cd[channel := g channel (cd ! channel)]) [0..<k] cd ! c =
     (if c < k then g c (cd ! c) else cd ! c)"
  by (induction k) (auto simp: fold_update_length nth_list_update less_Suc_eq)

lemma reverseChannel_length: "length (reverseChannel len od rd) = length rd"
  by (simp add: reverseChannel_def fold_update_length)

lemma reverseChannel_nth:
  "i < len \<Longrightarrow> length rd = len \<Longrightarrow> reverseChannel len od rd ! i = od ! (len - 1 - i)"
  by (simp add: reverseChannel_def fold_update_const_nth)

lemma createReversedBuffer_wf:
  assumes "wf_buffer b"
  shows "\<exists>r. createReversedBuffer b = Inr r \<and>
           numberOfChannels r = numberOfChannels b \<and>
           length_frames r = length_frames b \<and>
           sampleRate r = sampleRate b \<and>
           length (channelData r) = numberOfChannels b \<and>
           (\<forall>c < numberOfChannels b.
              length (channelData r ! c) = length_frames b \<and>
              (\<forall>i < length_frames b.
                 channelData r ! c ! i = channelData b ! c ! (length_frames b - 1 - i)))"
proof -
  let ?n = "numberOfChannels b" and ?len = "length_frames b"
  let ?g = "\<lambda>channel. reverseChannel ?len (channelData b ! channel)"
  let ?zero = "replicate ?n (replicate ?len (0::real))"
  let ?cd = "fold (\<lambda>channel cd. cd[channel := ?g channel (cd ! channel)]) [0..<?n] ?zero"
  from assms have pos: "0 < ?n" "0 < ?len"
    by (simp_all add: wf_buffer_def)
  have len: "length ?cd = ?n"
    by (simp add: fold_update_length)
  have ch: "?cd ! c = ?g c (replicate ?len 0)" if "c < ?n" for c
    using that fold_update_self_nth [of c ?zero ?g ?n] by simp
  have "createReversedBuffer b =
          Inr \<lparr>numberOfChannels = ?n, length_frames = ?len, sampleRate = sampleRate b,
               channelData = ?cd\<rparr>"
    using pos by (simp add: createReversedBuffer_def createBuffer_def)
  moreover have "length (?cd ! c) = ?len \<and>
      (\<forall>i < ?len. ?cd ! c ! i = channelData b ! c ! (?len - 1 - i))" if "c < ?n" for c
    using that by (simp add: ch reverseChannel_length reverseChannel_nth)
  ultimately show ?thesis
    using len by simp
qed

lemma loadAudioFromBlob_installs:
  "createReversedBuffer b = Inr r \<Longrightarrow>
   audioBuffer (loadAudioFromBlob (Inr b) t) = Some b \<and>
   reversedBuffer (loadAudioFromBlob (Inr b) t) = Some r"
  by (simp add: loadAudioFromBlob_def Let_def)

lemma play_keeps_buffers [simp]:
  "audioBuffer (play w now t) = audioBuffer t" "reversedBuffer (play w now t) = reversedBuffer t"
  by (simp_all add: play_def Let_def stop_def split: option.splits)

lemma loadFileToTrack_installs:
  "createReversedBuffer b = Inr r \<Longrightarrow> k < length (tracks rc) \<Longrightarrow>
   audioBuffer (tracks (loadFileToTrack (int k) (Inr b) now rc) ! k) = Some b \<and>
   reversedBuffer (tracks (loadFileToTrack (int k) (Inr b) now rc) ! k) = Some r"
  by (simp add: loadFileToTrack_def Let_def)

text \<open>
  Claim C1. A decoded buffer \<open>b\<close> that is installed on a track, by the end of a
  recording or by \<open>loadFileToTrack\<close> on any track \<open>k\<close> of the recorder, comes with
  a \<open>reversedBuffer\<close> of the same number of channels, length, sample rate and
  duration, in which sample \<open>i\<close> of every channel is sample \<open>length - 1 - i\<close> of the
  same channel of \<open>b\<close>.
\<close>

theorem reversedBuffer_in_sync:
  assumes "wf_buffer b"
  shows "\<exists>r. createReversedBuffer b = Inr r \<and>
           audioBuffer (recordingStopped (Inr b) t) = Some b \<and>
           reversedBuffer (recordingStopped (Inr b) t) = Some r \<and>
           (\<forall>k < length (tracks rc).
              audioBuffer (tracks (loadFileToTrack (int k) (Inr b) now rc) ! k) = Some b \<and>
              reversedBuffer (tracks (loadFileToTrack (int k) (Inr b) now rc) ! k) = Some r) \<and>
           numberOfChannels r = numberOfChannels b \<and>
           length_frames r = length_frames b \<and>
           sampleRate r = sampleRate b \<and>
           duration r = duration b \<and>
           length (channelData r) = numberOfChannels b \<and>
           (\<forall>c < numberOfChannels b.
              length (channelData r ! c) = length_frames b \<and>
              (\<forall>i < length_frames b.
                 channelData r ! c ! i = channelData b ! c ! (length_frames b - 1 - i)))"
proof -
  from createReversedBuffer_wf [OF assms] obtain r where
    r: "createReversedBuffer b = Inr r" and
    shape: "numberOfChannels r = numberOfChannels b" "length_frames r = length_frames b"
      "sampleRate r = sampleRate b" "length (channelData r) = numberOfChannels b" and
    samples: "\<forall>c < numberOfChannels b.
              length (channelData r ! c) = length_frames b \<and>
              (\<forall>i < length_frames b.
                 channelData r ! c ! i = channelData b ! c ! (length_frames b - 1 - i))"
    by blast
  have "duration r = duration b"
    by (simp add: duration_def shape)
  moreover have "audioBuffer (recordingStopped (Inr b) t) = Some b \<and>
      reversedBuffer (recordingStopped (Inr b) t) = Some r"
    using loadAudioFromBlob_installs [OF r] by (simp add: recordingStopped_def)
  ultimately show ?thesis
    using r shape samples loadFileToTrack_installs [OF r] by blast
qed

theorem reversedBuffer_in_sync_witness:
  "wf_buffer demo_buffer \<and>
   (\<exists>r. reversedBuffer (recordingStopped (Inr demo_buffer) (newTrack 0)) = Some r \<and>
        reversedBuffer (tracks (loadFileToTrack 2 (Inr demo_buffer) 0
                                 demo_recorder) ! 2) = Some r \<and>
        length_frames r = 3 \<and> numberOfChannels r = 2 \<and>
        channelData r ! 0 ! 0 = 3 \<and> channelData r ! 1 ! 2 = 4)"
proof -
  have wf: "wf_buffer demo_buffer"
    by (simp add: wf_buffer_def demo_buffer_def)
  from reversedBuffer_in_sync [OF wf, of "newTrack 0" "demo_recorder" 0]
  obtain r where
    r: "reversedBuffer (recordingStopped (Inr demo_buffer) (newTrack 0)) = Some r"
      "length_frames r = length_frames demo_buffer"
      "numberOfChannels r = numberOfChannels demo_buffer" and
    loaded: "\<forall>k < length (tracks demo_recorder).
             audioBuffer (tracks (loadFileToTrack (int k) (Inr demo_buffer) 0
                                    demo_recorder) ! k) = Some demo_buffer \<and>
             reversedBuffer (tracks (loadFileToTrack (int k) (Inr demo_buffer) 0
                                       demo_recorder) ! k) = Some r" and
    samples: "\<forall>c < numberOfChannels demo_buffer.
              length (channelData r ! c) = length_frames demo_buffer \<and>
              (\<forall>i < length_frames demo_buffer.
                 channelData r ! c ! i =
                 channelData demo_buffer ! c ! (length_frames demo_buffer - 1 - i))"
    by blast
  have "channelData r ! 0 ! 0 = 3"
    using samples by (simp add: demo_buffer_def)
  moreover have "channelData r ! 1 ! 2 = 4"
    using samples by (simp add: demo_buffer_def)
  moreover have "reversedBuffer (tracks (loadFileToTrack 2 (Inr demo_buffer) 0
                                 demo_recorder) ! 2) = Some r"
    using loaded [rule_format, of 2] by (simp add: demo_recorder_def newRecorder_def)
  ultimately show ?thesis
    using wf r by (simp add: demo_buffer_def)
qed

subsection \<open>Speed and direction\<close>

lemma stop_keeps_speed [simp]:
  "playbackRate (stop t) = playbackRate t" "isReversed (stop t) = isReversed t"
  by (simp_all add: stop_def)

lemma play_keeps_speed [simp]:
  "playbackRate (play w now t) = playbackRate t" "isReversed (play w now t) = isReversed t"
  by (simp_all add: play_def Let_def stop_def split: option.splits)

lemma setSpeed_playbackRate:
  "playbackRate (setSpeed v now t) = (if v = 0 then 1 else 4 powr (\<bar>v\<bar> / 100))"
  by (simp add: setSpeed_def Let_def split: option.splits)

lemma setSpeed_isReversed: "isReversed (setSpeed v now t) = (v < 0)"
  by (auto simp add: setSpeed_def Let_def split: option.splits)

text \<open>
  Claim C2. Whatever the track was doing, \<open>setSpeed(0)\<close> gives rate 1 forward; a
  value \<open>v\<close> in \<open>(0, 100]\<close> gives rate \<open>4 powr (v / 100)\<close> forward and a value in
  \<open>[-100, 0)\<close> gives rate \<open>4 powr (\<bar>v\<bar> / 100)\<close> in reverse; 100 and -100 give rate 4,
  forward and reverse; and \<open>v\<close> and \<open>-v\<close> give the same rate in opposite directions.
\<close>

theorem setSpeed_rate_and_direction:
  "playbackRate (setSpeed 0 now t) = 1 \<and> \<not> isReversed (setSpeed 0 now t) \<and>
   (0 < v \<and> v \<le> 100 \<longrightarrow>
      playbackRate (setSpeed v now t) = 4 powr (v / 100) \<and> \<not> isReversed (setSpeed v now t)) \<and>
   (- 100 \<le> v \<and> v < 0 \<longrightarrow>
      playbackRate (setSpeed v now t) = 4 powr (\<bar>v\<bar> / 100) \<and> isReversed (setSpeed v now t)) \<and>
   playbackRate (setSpeed 100 now t) = 4 \<and> \<not> isReversed (setSpeed 100 now t) \<and>
   playbackRate (setSpeed (- 100) now t) = 4 \<and> isReversed (setSpeed (- 100) now t) \<and>
   (v \<noteq> 0 \<longrightarrow>
      playbackRate (setSpeed v now t) = playbackRate (setSpeed (- v) now t) \<and>
      isReversed (setSpeed v now t) = (\<not> isReversed (setSpeed (- v) now t)))"
  by (auto simp add: setSpeed_playbackRate setSpeed_isReversed)

theorem setSpeed_rate_and_direction_witness:
  "(0 < (50::real) \<and> (50::real) \<le> 100) \<and> (- 100 \<le> (- 50::real) \<and> (- 50::real) < 0) \<and>
   playbackRate (setSpeed 50 0 (newTrack 0)) = 2 \<and>
   \<not> isReversed (setSpeed 50 0 (newTrack 0)) \<and>
   playbackRate (setSpeed (- 50) 0 (newTrack 0)) = 2 \<and>
   isReversed (setSpeed (- 50) 0 (newTrack 0))"
proof -
  have half: "(4::real) powr (1 / 2) = 2"
    by (simp add: powr_half_sqrt)
  show ?thesis
    using setSpeed_rate_and_direction [of 0 "newTrack 0" 50]
      setSpeed_rate_and_direction [of 0 "newTrack 0" "- 50"] half
    by simp
qed

subsection \<open>Compressor, mute and solo\<close>

text \<open>
  Claim C6. For an amount \<open>a\<close> in \<open>[0, 1]\<close> the peak reduction of a track and of
  the master sets the threshold to \<open>-10 - 30 a\<close> dB and the ratio to \<open>3 + 5 a\<close>, and
  the makeup gain becomes \<open>10 powr a\<close>: threshold -10 and ratio 3 at 0, threshold -40
  and ratio 8 at 1, gain 1 at 0 and gain 10 at 1.
\<close>

theorem compressor_curve:
  assumes "0 \<le> a" and "a \<le> 1"
  shows "threshold (la2aCompressor (setLA2APeakReduction a t)) = - 10 - 30 * a \<and>
         ratio (la2aCompressor (setLA2APeakReduction a t)) = 3 + 5 * a \<and>
         la2aMakeupGain (setLA2AGain a t) = 10 powr a \<and>
         threshold (masterLA2A (setMasterLA2APeakReduction a r)) = - 10 - 30 * a \<and>
         ratio (masterLA2A (setMasterLA2APeakReduction a r)) = 3 + 5 * a \<and>
         masterLA2AMakeupGain (setMasterLA2AGain a r) = 10 powr a \<and>
         threshold (la2aCompressor (setLA2APeakReduction 0 t)) = - 10 \<and>
         ratio (la2aCompressor (setLA2APeakReduction 0 t)) = 3 \<and>
         threshold (la2aCompressor (setLA2APeakReduction 1 t)) = - 40 \<and>
         ratio (la2aCompressor (setLA2APeakReduction 1 t)) = 8 \<and>
         la2aMakeupGain (setLA2AGain 0 t) = 1 \<and>
         la2aMakeupGain (setLA2AGain 1 t) = 10 \<and>
         threshold (masterLA2A (setMasterLA2APeakReduction 0 r)) = - 10 \<and>
         ratio (masterLA2A (setMasterLA2APeakReduction 0 r)) = 3 \<and>
         threshold (masterLA2A (setMasterLA2APeakReduction 1 r)) = - 40 \<and>
         ratio (masterLA2A (setMasterLA2APeakReduction 1 r)) = 8 \<and>
         masterLA2AMakeupGain (setMasterLA2AGain 0 r) = 1 \<and>
         masterLA2AMakeupGain (setMasterLA2AGain 1 r) = 10"
  by (simp add: setLA2APeakReduction_def setLA2AGain_def setMasterLA2APeakReduction_def
      setMasterLA2AGain_def Let_def)

theorem compressor_curve_witness:
  "(0::real) \<le> 1 / 2 \<and> (1 / 2 :: real) \<le> 1 \<and>
   threshold (la2aCompressor (setLA2APeakReduction (1 / 2) (newTrack 0))) = - 25 \<and>
   ratio (la2aCompressor (setLA2APeakReduction (1 / 2) (newTrack 0))) = 11 / 2 \<and>
   threshold (masterLA2A (setMasterLA2APeakReduction (1 / 2) demo_recorder)) = - 25 \<and>
   la2aMakeupGain (setLA2AGain 1 (newTrack 0)) = 10 \<and>
   masterLA2AMakeupGain (setMasterLA2AGain 0 demo_recorder) = 1"
  using compressor_curve [of "1 / 2" "newTrack 0" "demo_recorder"]
  by simp

text \<open>
  Claim C9. Whatever the fader \<open>f\<close> was, muting sets the fader gain to 0, and
  unmuting sets it to 0.8, not back to \<open>f\<close>.
\<close>

theorem setMute_fixed_level:
  "channelFader (setMute True (setFader f t)) = 0 \<and>
   isMuted (setMute True (setFader f t)) \<and>
   channelFader (setMute False (setMute True (setFader f t))) = 8 / 10 \<and>
   \<not> isMuted (setMute False (setMute True (setFader f t)))"
  by (simp add: setMute_def setFader_def)

theorem setMute_fixed_level_witness:
  "channelFader (setFader (3 / 10) (newTrack 0)) = 3 / 10 \<and>
   channelFader (setMute True (setFader (3 / 10) (newTrack 0))) = 0 \<and>
   channelFader (setMute False (setMute True (setFader (3 / 10) (newTrack 0)))) = 8 / 10"
  using setMute_fixed_level [of "3 / 10" "newTrack 0"]
  by (simp add: setFader_def)

lemma setMute_True_props [simp]:
  "isMuted (setMute True t)" "channelFader (setMute True t) = 0"
  "isSolo (setMute m t) = isSolo t" "isMuted (setMute m t) = m"
  by (simp_all add: setMute_def)

lemma setMute_True_idem [simp]: "setMute True (setMute True t) = setMute True t"
  by (simp add: setMute_def)

lemma setSolo_props [simp]:
  "isSolo (setSolo b t) = b" "isMuted (setSolo b t) = isMuted t"
  by (simp_all add: setSolo_def)

lemma handleSolo_engage:
  assumes k: "k < length (tracks r)" and none: "\<forall>t \<in> set (tracks r). \<not> isSolo t"
  shows "\<exists>r1. handleSolo k r = Inr r1 \<and> length (tracks r1) = length (tracks r) \<and>
           isSolo (tracks r1 ! k) \<and>
           (\<forall>j < length (tracks r). j \<noteq> k \<longrightarrow>
              tracks r1 ! j = setMute True (tracks r ! j))"
proof -
  let ?ts = "(tracks r)[k := setSolo (\<not> isSolo (tracks r ! k)) (tracks r ! k)]"
  have notsolo: "\<not> isSolo (tracks r ! j)" if "j < length (tracks r)" for j
    using none that by simp
  have k_solo: "isSolo (?ts ! k)"
    using k notsolo [OF k] by simp
  have any: "list_ex isSolo ?ts"
    unfolding list_ex_iff using k k_solo by (metis length_list_update nth_mem)
  have eq: "handleSolo k r =
      Inr (r\<lparr>tracks := map (\<lambda>t. if \<not> isSolo t then setMute True t else t) ?ts\<rparr>)"
    using k any by (simp add: handleSolo_def Let_def)
  have "map (\<lambda>t. if \<not> isSolo t then setMute True t else t) ?ts ! j = setMute True (tracks r ! j)"
    if "j < length (tracks r)" "j \<noteq> k" for j
    using that notsolo [of j] by simp
  moreover have "isSolo (map (\<lambda>t. if \<not> isSolo t then setMute True t else t) ?ts ! k)"
    using k k_solo by simp
  ultimately show ?thesis
    using eq by simp
qed

lemma handleSolo_release:
  assumes k: "k < length (tracks r)" and solo: "isSolo (tracks r ! k)"
    and others: "\<forall>j < length (tracks r). j \<noteq> k \<longrightarrow> \<not> isSolo (tracks r ! j)"
  shows "\<exists>r2. handleSolo k r = Inr r2 \<and> length (tracks r2) = length (tracks r) \<and>
           (\<forall>j < length (tracks r). \<not> isSolo (tracks r2 ! j) \<and>
              isMuted (tracks r2 ! j) = isMuted (tracks r ! j) \<and>
              (j \<noteq> k \<longrightarrow> tracks r2 ! j = setMute (isMuted (tracks r ! j)) (tracks r ! j)))"
proof -
  let ?ts = "(tracks r)[k := setSolo (\<not> isSolo (tracks r ! k)) (tracks r ! k)]"
  have nosolo: "\<not> isSolo (?ts ! j)" if "j < length (tracks r)" for j
    using that solo others by (cases "j = k") simp_all
  have "\<not> list_ex isSolo ?ts"
    unfolding list_ex_iff using nosolo by (metis in_set_conv_nth length_list_update)
  then have eq: "handleSolo k r = Inr (r\<lparr>tracks := map (\<lambda>t. setMute (isMuted t) t) ?ts\<rparr>)"
    using k by (simp add: handleSolo_def Let_def)
  have "\<not> isSolo (map (\<lambda>t. setMute (isMuted t) t) ?ts ! j) \<and>
        isMuted (map (\<lambda>t. setMute (isMuted t) t) ?ts ! j) = isMuted (tracks r ! j) \<and>
        (j \<noteq> k \<longrightarrow> map (\<lambda>t. setMute (isMuted t) t) ?ts ! j
                      = setMute (isMuted (tracks r ! j)) (tracks r ! j))"
    if "j < length (tracks r)" for j
    using that nosolo [OF that] by (cases "j = k") simp_all
  then show ?thesis
    using eq by simp
qed

text \<open>
  Claim C10. When no track is solo, the solo of track \<open>k\<close> applies \<open>setMute(true)\<close>
  to every other track; when the solo of \<open>k\<close> is released again, no track is solo and
  every other track is still muted, with fader gain 0, whether or not it was muted
  before.
\<close>

theorem solo_leaves_tracks_muted:
  assumes k: "k < length (tracks r)" and none: "\<forall>t \<in> set (tracks r). \<not> isSolo t"
  shows "\<exists>r1 r2. handleSolo k r = Inr r1 \<and> handleSolo k r1 = Inr r2 \<and>
           isSolo (tracks r1 ! k) \<and>
           (\<forall>j < length (tracks r). \<not> isSolo (tracks r2 ! j)) \<and>
           (\<forall>j < length (tracks r). j \<noteq> k \<longrightarrow>
              tracks r1 ! j = setMute True (tracks r ! j) \<and>
              isMuted (tracks r1 ! j) \<and> channelFader (tracks r1 ! j) = 0 \<and>
              isMuted (tracks r2 ! j) \<and> channelFader (tracks r2 ! j) = 0)"
proof -
  from handleSolo_engage [OF k none] obtain r1 where
    r1: "handleSolo k r = Inr r1" "length (tracks r1) = length (tracks r)"
      "isSolo (tracks r1 ! k)" and
    others1: "\<forall>j < length (tracks r). j \<noteq> k \<longrightarrow> tracks r1 ! j = setMute True (tracks r ! j)"
    by blast
  have k1: "k < length (tracks r1)"
    using k r1 by simp
  have nosolo1: "\<forall>j < length (tracks r1). j \<noteq> k \<longrightarrow> \<not> isSolo (tracks r1 ! j)"
    using others1 none r1 by simp
  from handleSolo_release [OF k1 r1(3) nosolo1] obtain r2 where
    r2: "handleSolo k r1 = Inr r2" and
    all2: "\<forall>j < length (tracks r1). \<not> isSolo (tracks r2 ! j) \<and>
              isMuted (tracks r2 ! j) = isMuted (tracks r1 ! j) \<and>
              (j \<noteq> k \<longrightarrow> tracks r2 ! j = setMute (isMuted (tracks r1 ! j)) (tracks r1 ! j))"
    by blast
  have "tracks r1 ! j = setMute True (tracks r ! j) \<and>
        isMuted (tracks r1 ! j) \<and> channelFader (tracks r1 ! j) = 0 \<and>
        isMuted (tracks r2 ! j) \<and> channelFader (tracks r2 ! j) = 0"
    if "j < length (tracks r)" "j \<noteq> k" for j
    using that others1 all2 r1(2) by simp
  then show ?thesis
    using r1 r2 all2 by auto
qed

theorem solo_leaves_tracks_muted_witness:
  "1 < length (tracks demo_recorder) \<and>
   list_all (\<lambda>t. \<not> isSolo t) (tracks demo_recorder) \<and>
   \<not> isMuted (tracks demo_recorder ! 0) \<and>
   (\<exists>r1 r2. handleSolo 1 demo_recorder = Inr r1 \<and>
      handleSolo 1 r1 = Inr r2 \<and> \<not> isSolo (tracks r2 ! 1) \<and>
      isMuted (tracks r2 ! 0) \<and> channelFader (tracks r2 ! 0) = 0 \<and>
      isMuted (tracks r2 ! 3) \<and> channelFader (tracks r2 ! 3) = 0)"
proof -
  let ?r = "demo_recorder"
  have ts: "tracks ?r = [newTrack 0, newTrack 1, newTrack 2, newTrack 3]"
    by (simp add: demo_recorder_def newRecorder_def upt_rec numeral_2_eq_2 numeral_3_eq_3)
  have k: "1 < length (tracks ?r)"
    by (simp add: ts)
  have none: "\<forall>t \<in> set (tracks ?r). \<not> isSolo t"
    by (simp add: ts newTrack_def)
  have unmuted: "\<not> isMuted (tracks ?r ! 0)"
    by (simp add: ts newTrack_def)
  from solo_leaves_tracks_muted [OF k none] obtain r1 r2 where
    r: "handleSolo 1 ?r = Inr r1" "handleSolo 1 r1 = Inr r2"
      "\<forall>j < length (tracks ?r). \<not> isSolo (tracks r2 ! j)" and
    others: "\<forall>j < length (tracks ?r). j \<noteq> 1 \<longrightarrow>
              tracks r1 ! j = setMute True (tracks ?r ! j) \<and>
              isMuted (tracks r1 ! j) \<and> channelFader (tracks r1 ! j) = 0 \<and>
              isMuted (tracks r2 ! j) \<and> channelFader (tracks r2 ! j) = 0"
    by blast
  have "\<not> isSolo (tracks r2 ! 1)"
    using r(3) k by blast
  moreover have "isMuted (tracks r2 ! 0) \<and> channelFader (tracks r2 ! 0) = 0"
    using others [rule_format, of 0] by (simp add: ts)
  moreover have "isMuted (tracks r2 ! 3) \<and> channelFader (tracks r2 ! 3) = 0"
    using others [rule_format, of 3] by (simp add: ts)
  ultimately show ?thesis
    using k none unmuted r by (auto simp: list_all_iff)
qed

section \<open>Properties of the master bus\<close>

subsection \<open>The impulse cache\<close>




























subsection \<open>The WAV encoder\<close>

lemma length_bytes [simp]:
  "length (bytes16 v le) = 2" "length (bytes32 v le) = 4" "length (charCodes s) = length s"
  by (simp_all add: bytes16_def bytes32_def charCodes_def Let_def)

lemma filled_Nil: "replicate N 0 = filled N []"
  by (simp add: filled_def)

lemma filled_full: "length pre = N \<Longrightarrow> filled N pre = pre"
  by (simp add: filled_def)

lemma setBytes_filled:
  "byteOffset = length pre \<Longrightarrow> length pre + length bs \<le> N \<Longrightarrow>
   setBytes byteOffset bs (filled N pre) = Some (filled N (pre @ bs))"
  by (simp add: setBytes_def filled_def)

lemma forEach_append:
  "forEach (xs @ ys) body s =
     (case forEach xs body s of None \<Rightarrow> None | Some s' \<Rightarrow> forEach ys body s')"
  by (induction xs arbitrary: s) (simp_all split: option.splits)

lemma writeString_prefix:
  "m \<le> length s \<Longrightarrow> length pre + length s \<le> N \<Longrightarrow>
   forEach [0..<m] (\<lambda>i v. setUint8 (length pre + i) (of_char (s ! i)) v) (filled N pre)
     = Some (filled N (pre @ charCodes (take m s)))"
proof (induction m)
  case 0
  then show ?case by (simp add: charCodes_def)
next
  case (Suc m)
  have "setUint8 (length pre + m) (of_char (s ! m)) (filled N (pre @ charCodes (take m s)))
        = Some (filled N ((pre @ charCodes (take m s)) @ [of_nat (of_char (s ! m) mod 256)]))"
    unfolding setUint8_def using Suc.prems by (intro setBytes_filled) simp_all
  moreover have "charCodes (take (Suc m) s) = charCodes (take m s) @ [of_nat (of_char (s ! m) mod 256)]"
    using Suc.prems by (simp add: charCodes_def take_Suc_conv_app_nth)
  ultimately show ?case
    using Suc by (simp add: forEach_append)
qed

lemma writeString_filled:
  "byteOffset = length pre \<Longrightarrow> length pre + length s \<le> N \<Longrightarrow>
   writeString byteOffset s (filled N pre) = Some (filled N (pre @ charCodes s))"
  using writeString_prefix [of "length s" s pre N] by (simp add: writeString_def)

lemma setUint32_filled:
  "byteOffset = length pre \<Longrightarrow> length pre + 4 \<le> N \<Longrightarrow>
   setUint32 byteOffset v le (filled N pre) = Some (filled N (pre @ bytes32 (int v) le))"
  by (simp add: setUint32_def setBytes_filled)

lemma setUint16_filled:
  "byteOffset = length pre \<Longrightarrow> length pre + 2 \<le> N \<Longrightarrow>
   setUint16 byteOffset v le (filled N pre) = Some (filled N (pre @ bytes16 (int v) le))"
  by (simp add: setUint16_def setBytes_filled)

lemma writeSample_filled:
  "byteOffset = length pre \<Longrightarrow> length pre + 2 \<le> N \<Longrightarrow>
   writeSample b i c (filled N pre, byteOffset)
     = Some (filled N (pre @ sampleBytes b i c), byteOffset + 2)"
  by (simp add: writeSample_def setInt16_def setBytes_filled sampleBytes_def)

lemma channels_filled:
  "byteOffset = length pre \<Longrightarrow> length pre + 2 * length cs \<le> N \<Longrightarrow>
   forEach cs (writeSample b i) (filled N pre, byteOffset)
     = Some (filled N (pre @ concat (map (sampleBytes b i) cs)), byteOffset + 2 * length cs)"
proof (induction cs arbitrary: pre byteOffset)
  case Nil
  then show ?case by simp
next
  case (Cons c cs)
  have "forEach cs (writeSample b i) (filled N (pre @ sampleBytes b i c), byteOffset + 2)
        = Some (filled N ((pre @ sampleBytes b i c) @ concat (map (sampleBytes b i) cs)),
                (byteOffset + 2) + 2 * length cs)"
    using Cons.prems by (intro Cons.IH) (simp_all add: sampleBytes_def)
  then show ?case
    using Cons.prems by (simp add: writeSample_filled)
qed

lemma length_frame_bytes [simp]:
  "length (concat (map (sampleBytes b i) cs)) = 2 * length cs"
  by (induction cs) (simp_all add: sampleBytes_def)

lemma frames_filled:
  "byteOffset = length pre \<Longrightarrow> length pre + length fs * (2 * m) \<le> N \<Longrightarrow>
   forEach fs (\<lambda>i. forEach [0..<m] (writeSample b i)) (filled N pre, byteOffset)
     = Some (filled N (pre @ concat (map (\<lambda>i. concat (map (sampleBytes b i) [0..<m])) fs)),
             byteOffset + length fs * (2 * m))"
proof (induction fs arbitrary: pre byteOffset)
  case Nil
  then show ?case by simp
next
  case (Cons i fs)
  let ?fb = "concat (map (sampleBytes b i) [0..<m])"
  have first: "forEach [0..<m] (writeSample b i) (filled N pre, byteOffset)
               = Some (filled N (pre @ ?fb), byteOffset + 2 * m)"
    using Cons.prems channels_filled [of byteOffset pre "[0..<m]" N b i] by simp
  have "forEach fs (\<lambda>i. forEach [0..<m] (writeSample b i)) (filled N (pre @ ?fb), byteOffset + 2 * m)
        = Some (filled N ((pre @ ?fb) @ concat (map (\<lambda>i. concat (map (sampleBytes b i) [0..<m])) fs)),
                (byteOffset + 2 * m) + length fs * (2 * m))"
    using Cons.prems by (intro Cons.IH) simp_all
  then show ?case
    using first by simp
qed

lemma length_wavHeader [simp]: "length (wavHeader b) = 44"
  by (simp add: wavHeader_def Let_def)

lemma length_wavData [simp]:
  "length (wavData b) = length_frames b * numberOfChannels b * 2"
proof -
  have "length (concat (map (\<lambda>i. concat (map (sampleBytes b i) [0..<m])) fs))
        = length fs * m * 2" for fs m
    by (induction fs) simp_all
  then show ?thesis
    by (simp add: wavData_def)
qed

lemma bufferToWav_bytes: "bufferToWav b = Some (wavHeader b @ wavData b)"
proof -
  let ?L = "length_frames b * numberOfChannels b * 2"
  let ?N = "44 + ?L"
  have frames: "forEach [0..<length_frames b]
                  (\<lambda>i. forEach [0..<numberOfChannels b] (writeSample b i))
                  (filled ?N (wavHeader b), 44)
                = Some (filled ?N (wavHeader b @ wavData b), 44 + ?L)"
    using frames_filled [of 44 "wavHeader b" "[0..<length_frames b]" "numberOfChannels b" ?N b]
    by (simp add: wavData_def mult.assoc mult.left_commute)
  have full: "filled ?N (wavHeader b @ wavData b) = wavHeader b @ wavData b"
    by (rule filled_full) simp
  show ?thesis
    using frames full
    by (simp add: bufferToWav_def Let_def filled_Nil writeString_filled setUint32_filled
        setUint16_filled wavHeader_def)
qed

lemma unat_byte_of_int: "0 \<le> x \<Longrightarrow> x < 256 \<Longrightarrow> unat (of_int x :: byte) = nat x"
  by (simp add: unat_eq_nat_uint uint_word_of_int)

lemma getString_charCodes: "map (\<lambda>b. char_of (unat b)) (charCodes s) = s"
  by (induction s) (simp_all add: charCodes_def unat_of_nat)

lemma split_mod_65536: "(v::int) mod 256 + 256 * (v div 256 mod 256) = v mod 65536"
  using zmod_zmult2_eq [of 256 v 256] by simp

lemma unsigned_bytes16: "unsigned (bytes16 v True) = nat (v mod 65536)"
proof -
  have "unsigned (bytes16 v True) = nat (v mod 256) + 256 * nat (v div 256 mod 256)"
    by (simp add: bytes16_def unat_byte_of_int)
  also have "\<dots> = nat (v mod 256 + 256 * (v div 256 mod 256))"
    by (simp add: nat_add_distrib nat_mult_distrib)
  finally show ?thesis
    by (simp only: split_mod_65536)
qed

lemma split_mod_2_32:
  "(v::int) mod 256 + 256 * (v div 256 mod 256 +
      256 * (v div 65536 mod 256 + 256 * (v div 16777216 mod 256))) = v mod 4294967296"
proof -
  have a: "v mod 4294967296 = 256 * (v div 256 mod 16777216) + v mod 256"
    using zmod_zmult2_eq [of 16777216 v 256] by simp
  have b: "v div 256 mod 16777216 = 256 * (v div 65536 mod 65536) + v div 256 mod 256"
    using zmod_zmult2_eq [of 65536 "v div 256" 256] by (simp add: zdiv_zmult2_eq [symmetric])
  have c: "v div 65536 mod 65536 = 256 * (v div 16777216 mod 256) + v div 65536 mod 256"
    using zmod_zmult2_eq [of 256 "v div 65536" 256] by (simp add: zdiv_zmult2_eq [symmetric])
  show ?thesis
    unfolding a b c by simp
qed

lemma unsigned_bytes32: "unsigned (bytes32 v True) = nat (v mod 4294967296)"
proof -
  have "unsigned (bytes32 v True) =
          nat (v mod 256) + 256 * (nat (v div 256 mod 256) +
            256 * (nat (v div 65536 mod 256) + 256 * nat (v div 16777216 mod 256)))"
    by (simp add: bytes32_def unat_byte_of_int)
  also have "\<dots> = nat (v mod 256 + 256 * (v div 256 mod 256 +
            256 * (v div 65536 mod 256 + 256 * (v div 16777216 mod 256))))"
    by (simp add: nat_add_distrib nat_mult_distrib)
  finally show ?thesis
    by (simp only: split_mod_2_32)
qed

lemma unsigned_uint32:
  "n < 4294967296 \<Longrightarrow> v = int n \<Longrightarrow> unsigned (bytes32 v True) = n"
  by (simp add: unsigned_bytes32)

lemma unsigned_uint16:
  "n < 65536 \<Longrightarrow> v = int n \<Longrightarrow> unsigned (bytes16 v True) = n"
  by (simp add: unsigned_bytes16)

lemma unsigned_bytes16_signed:
  assumes "- 32768 \<le> v" and "v < 32768"
  shows "(let u = int (unsigned (bytes16 v True)) in if u \<ge> 32768 then u - 65536 else u) = v"
proof (cases "v < 0")
  case False
  then have "v mod 65536 = v"
    using assms by simp
  then show ?thesis
    using assms False by (simp add: unsigned_bytes16 Let_def)
next
  case True
  have "(v + 65536) mod 65536 = v + 65536"
    using assms True by (intro mod_pos_pos_trivial) simp_all
  then have "v mod 65536 = v + 65536"
    by simp
  then show ?thesis
    using assms True by (simp add: unsigned_bytes16 Let_def)
qed

lemma toInteger_scaled_range:
  assumes "- 1 \<le> x" and "x \<le> 1"
  shows "- 32767 \<le> toInteger (x * 32767) \<and> toInteger (x * 32767) \<le> 32767"
proof -
  have "- 32767 \<le> x * 32767" "x * 32767 \<le> 32767"
    using assms by simp_all
  then show ?thesis
    unfolding toInteger_def by (simp add: le_floor_iff floor_le_iff le_ceiling_iff ceiling_le_iff)
qed

lemma concat_chunk:
  "\<forall>x \<in> set xss. length x = k \<Longrightarrow> j < length xss \<Longrightarrow>
   take k (drop (j * k) (concat xss)) = xss ! j"
proof (induction xss arbitrary: j)
  case Nil
  then show ?case by simp
next
  case (Cons x xss)
  show ?case
  proof (cases j)
    case 0
    then show ?thesis using Cons.prems by simp
  next
    case (Suc j')
    then show ?thesis using Cons by simp
  qed
qed

lemma sample_chunk:
  assumes i: "i < n" and c: "c < m"
  shows "take 2 (drop ((i * m + c) * 2)
            (concat (map (\<lambda>i. concat (map (sampleBytes b i) [0..<m])) [0..<n])))
         = sampleBytes b i c"
proof -
  let ?frame = "\<lambda>i. concat (map (sampleBytes b i) [0..<m])"
  let ?data = "concat (map ?frame [0..<n])"
  have frame: "take (2 * m) (drop (i * (2 * m)) ?data) = ?frame i"
    using concat_chunk [of "map ?frame [0..<n]" "2 * m" i] i by simp
  have sample: "take 2 (drop (c * 2) (?frame i)) = sampleBytes b i c"
    using concat_chunk [of "map (sampleBytes b i) [0..<m]" 2 c] c
    by (simp add: sampleBytes_def)
  have "take 2 (drop (c * 2) (take (2 * m) (drop (i * (2 * m)) ?data)))
        = take 2 (drop (c * 2 + i * (2 * m)) ?data)"
    using c by (simp add: drop_take min_def)
  moreover have "c * 2 + i * (2 * m) = (i * m + c) * 2"
    by (simp add: algebra_simps)
  ultimately show ?thesis
    using frame sample by simp
qed

lemma wav_sample:
  assumes wf: "wf_buffer b" and i: "i < length_frames b" and c: "c < numberOfChannels b"
  shows "getInt16 (wavHeader b @ wavData b) (44 + (i * numberOfChannels b + c) * 2) True
         = toInteger (max (- 1) (min 1 (channelData b ! c ! i)) * 32767)"
proof -
  let ?v = "toInteger (max (- 1) (min 1 (channelData b ! c ! i)) * 32767)"
  have range: "- 32768 \<le> ?v" "?v < 32768"
    using toInteger_scaled_range [of "max (- 1) (min 1 (channelData b ! c ! i))"] by simp_all
  have "take 2 (drop (44 + (i * numberOfChannels b + c) * 2) (wavHeader b @ wavData b))
        = take 2 (drop ((i * numberOfChannels b + c) * 2) (wavData b))"
    by simp
  also have "\<dots> = sampleBytes b i c"
    unfolding wavData_def using i c by (rule sample_chunk)
  finally have "take 2 (drop (44 + (i * numberOfChannels b + c) * 2) (wavHeader b @ wavData b))
                = bytes16 ?v True"
    by (simp add: sampleBytes_def)
  then show ?thesis
    using unsigned_bytes16_signed [OF range] by (simp add: getInt16_def getUint16_def Let_def)
qed

text \<open>
  Claim C3. For a stereo buffer whose file fits the 32-bit sizes of RIFF, the
  encoder returns 44 bytes of header and 4 bytes per frame: \<open>RIFF\<close>, the chunk size
  36 + data length, \<open>WAVE\<close>, \<open>fmt \<close> with subchunk size 16, format 1, 2 channels, the
  sample rate, byte rate = sample rate * 2 * 2, block align 2 * 2 and 16 bits per
  sample, then \<open>data\<close> with the length frames * 2 * 2; and the sample of frame \<open>i\<close>
  and channel \<open>c\<close> stands at offset \<open>44 + (i * 2 + c) * 2\<close> as a signed 16-bit
  little-endian number, the sample clamped to \<open>[-1, 1]\<close> and multiplied by 32767,
  without its fraction.
\<close>

theorem bufferToWav_format:
  assumes wf: "wf_buffer b" and stereo: "numberOfChannels b = 2" and sized: "riff_sized b"
  shows "\<exists>wav. bufferToWav b = Some wav \<and>
           length wav = 44 + length_frames b * 2 * 2 \<and>
           getString wav 0 4 = ''RIFF'' \<and>
           getUint32 wav 4 True = 36 + length_frames b * 2 * 2 \<and>
           getString wav 8 4 = ''WAVE'' \<and>
           getString wav 12 4 = ''fmt '' \<and>
           getUint32 wav 16 True = 16 \<and>
           getUint16 wav 20 True = 1 \<and>
           getUint16 wav 22 True = 2 \<and>
           getUint32 wav 24 True = sampleRate b \<and>
           getUint32 wav 28 True = sampleRate b * 2 * 2 \<and>
           getUint16 wav 32 True = 2 * 2 \<and>
           getUint16 wav 34 True = 16 \<and>
           getString wav 36 4 = ''data'' \<and>
           getUint32 wav 40 True = length_frames b * 2 * 2 \<and>
           (\<forall>i < length_frames b. \<forall>c < 2.
              getInt16 wav (44 + (i * 2 + c) * 2) True
                = toInteger (max (- 1) (min 1 (channelData b ! c ! i)) * 32767))"
proof -
  let ?wav = "wavHeader b @ wavData b"
  let ?L = "length_frames b * 2 * 2"
  have bounds: "36 + ?L < 4294967296" "?L < 4294967296" "sampleRate b < 4294967296"
    "sampleRate b * 2 * 2 < 4294967296"
    using sized stereo by (simp_all add: riff_sized_def)
  note rd = getUint32_def getUint16_def getString_def wavHeader_def Let_def stereo
    getString_charCodes
  have f0: "getString ?wav 0 4 = ''RIFF''" by (simp add: rd)
  have f4: "getUint32 ?wav 4 True = 36 + ?L"
    using bounds by (simp add: rd unsigned_uint32 [of "36 + ?L"])
  have f8: "getString ?wav 8 4 = ''WAVE''" by (simp add: rd)
  have f12: "getString ?wav 12 4 = ''fmt ''" by (simp add: rd)
  have f16: "getUint32 ?wav 16 True = 16" by (simp add: rd unsigned_uint32 [of 16])
  have f20: "getUint16 ?wav 20 True = 1" by (simp add: rd unsigned_uint16 [of 1])
  have f22: "getUint16 ?wav 22 True = 2" by (simp add: rd unsigned_uint16 [of 2])
  have f24: "getUint32 ?wav 24 True = sampleRate b"
    using bounds by (simp add: rd unsigned_uint32 [of "sampleRate b"])
  have f28: "getUint32 ?wav 28 True = sampleRate b * 2 * 2"
    using bounds by (simp add: rd unsigned_uint32 [of "sampleRate b * 2 * 2"])
  have f32: "getUint16 ?wav 32 True = 2 * 2" by (simp add: rd unsigned_uint16 [of 4])
  have f34: "getUint16 ?wav 34 True = 16" by (simp add: rd unsigned_uint16 [of 16])
  have f36: "getString ?wav 36 4 = ''data''" by (simp add: rd)
  have f40: "getUint32 ?wav 40 True = ?L"
    using bounds by (simp add: rd unsigned_uint32 [of ?L])
  have samples: "\<forall>i < length_frames b. \<forall>c < 2.
      getInt16 ?wav (44 + (i * 2 + c) * 2) True
        = toInteger (max (- 1) (min 1 (channelData b ! c ! i)) * 32767)"
    using wav_sample [OF wf] stereo by simp
  have len: "length ?wav = 44 + ?L"
    by (simp add: stereo)
  show ?thesis
    using bufferToWav_bytes [of b] len f0 f4 f8 f12 f16 f20 f22 f24 f28 f32 f34 f36 f40 samples
    by blast
qed

theorem bufferToWav_format_witness:
  "wf_buffer demo_stereo \<and> numberOfChannels demo_stereo = 2 \<and> riff_sized demo_stereo \<and>
   (\<exists>wav. bufferToWav demo_stereo = Some wav \<and> length wav = 52 \<and>
      getUint32 wav 4 True = 44 \<and> getUint32 wav 24 True = 44100 \<and>
      getUint32 wav 28 True = 176400 \<and> getUint32 wav 40 True = 8 \<and>
      getInt16 wav 44 True = 16383 \<and> getInt16 wav 46 True = 32767 \<and>
      getInt16 wav 48 True = - 32767 \<and> getInt16 wav 50 True = - 8191)"
proof -
  have wf: "wf_buffer demo_stereo"
    by (simp add: wf_buffer_def demo_stereo_def)
  have stereo: "numberOfChannels demo_stereo = 2"
    by (simp add: demo_stereo_def)
  have sized: "riff_sized demo_stereo"
    by (simp add: riff_sized_def demo_stereo_def)
  from bufferToWav_format [OF wf stereo sized] obtain wav where
    wav: "bufferToWav demo_stereo = Some wav" "length wav = 44 + length_frames demo_stereo * 2 * 2"
      "getUint32 wav 4 True = 36 + length_frames demo_stereo * 2 * 2"
      "getUint32 wav 24 True = sampleRate demo_stereo"
      "getUint32 wav 28 True = sampleRate demo_stereo * 2 * 2"
      "getUint32 wav 40 True = length_frames demo_stereo * 2 * 2" and
    samples: "\<forall>i < length_frames demo_stereo. \<forall>c < 2.
      getInt16 wav (44 + (i * 2 + c) * 2) True
        = toInteger (max (- 1) (min 1 (channelData demo_stereo ! c ! i)) * 32767)"
    by blast
  have s00: "getInt16 wav 44 True = 16383"
    using samples [rule_format, of 0 0] by (simp add: demo_stereo_def toInteger_def)
  have s01: "getInt16 wav 46 True = 32767"
    using samples [rule_format, of 0 1] by (simp add: demo_stereo_def toInteger_def)
  have s10: "getInt16 wav 48 True = - 32767"
    using samples [rule_format, of 1 0] by (simp add: demo_stereo_def toInteger_def)
  have s11: "getInt16 wav 50 True = - 8191"
    using samples [rule_format, of 1 1] by (simp add: demo_stereo_def toInteger_def)
  show ?thesis
    using wf stereo sized wav s00 s01 s10 s11 by (simp add: demo_stereo_def)
qed

subsection \<open>The export\<close>

lemma renderSources_filter:
  "renderSources ts =
     map (\<lambda>t. \<lparr>os_buffer = the (audioBuffer t), os_gain = channelFader t\<rparr>)
       (filter (\<lambda>t. audioBuffer t \<noteq> None \<and> \<not> isMuted t) ts)"
  by (induction ts) (auto simp: renderSources_def split: option.splits)

lemma renderSources_unmuted:
  "renderSources (map (\<lambda>t. if isMuted t then clear t else t) ts) = renderSources ts"
  by (induction ts) (auto simp: renderSources_def clear_def stop_def split: option.splits)

lemma renderSources_stop: "renderSources (map stop ts) = renderSources ts"
  by (induction ts) (auto simp: renderSources_def stop_def split: option.splits)

lemma maxDuration_fold_stop:
  "fold (\<lambda>track m. case audioBuffer track of None \<Rightarrow> m | Some ab \<Rightarrow> max m (duration ab))
     (map stop ts) m0 =
   fold (\<lambda>track m. case audioBuffer track of None \<Rightarrow> m | Some ab \<Rightarrow> max m (duration ab))
     ts m0"
  by (induction ts arbitrary: m0) (simp_all add: stop_def)

lemma maxDuration_stop: "maxDuration (map stop ts) = maxDuration ts"
  by (simp add: maxDuration_def maxDuration_fold_stop)

lemma exportGraph_rec_stop: "exportGraph (rec_stop r) = exportGraph r"
  by (simp add: exportGraph_def rec_stop_def maxDuration_stop renderSources_stop Let_def)

lemma exportGraph_without_muted:
  "maxDuration (tracks (without_muted r)) = maxDuration (tracks r) \<Longrightarrow>
   exportGraph (without_muted r) = exportGraph r"
  by (simp add: exportGraph_def Let_def) (simp add: without_muted_def renderSources_unmuted)

lemma exportMix_output:
  "snd (exportMix dsp r) =
     (case exportGraph r of
        Inl e \<Rightarrow> Inl e
      | Inr oc \<Rightarrow>
          (case startRendering dsp oc of
             None \<Rightarrow> Inl ExportFailed
           | Some renderedBuffer \<Rightarrow>
               (case bufferToWav renderedBuffer of
                  None \<Rightarrow> Inl ExportFailed
                | Some wav \<Rightarrow> Inr wav)))"
  by (simp add: exportMix_def Let_def exportGraph_rec_stop split: sum.splits option.splits)

text \<open>
  Claim C4, as stated, asks the export to equal the mix of the unmuted tracks
  alone. A muted track gives no source, but it still counts for the length of the
  render: with a muted track of 88200 frames beside an unmuted one of 44100 frames
  the context has 88200 frames, and 44100 once the muted track is cleared.
\<close>

theorem export_excludes_muted_counterexample:
  "isMuted (tracks muted_longer ! 1) \<and>
   map_sum id oc_length (exportGraph muted_longer) = Inr 88200 \<and>
   map_sum id oc_length (exportGraph (without_muted muted_longer)) = Inr 44100 \<and>
   map_sum id oc_sources (exportGraph muted_longer) =
     map_sum id oc_sources (exportGraph (without_muted muted_longer))"
  by (simp add: muted_longer_def without_muted_def demo_recorder_def newRecorder_def
      exportGraph_def maxDuration_def renderSources_def newTrack_def setMute_def clear_def
      stop_def duration_def silence_def toInteger_def Let_def
      to_double_1 to_double_2 to_double_44100 to_double_88200)

text \<open>
  Claim C4, amended. The sources of the offline render are exactly the tracks that
  have audio and are not muted, each with its own buffer and fader gain, in the
  order of the tracks; the length of the render is the longest duration of a
  loaded track, muted or not, times 44100, a product of doubles without its
  fraction; and when clearing the muted tracks leaves that longest duration
  unchanged, the exported file is the one the unmuted tracks alone give.
\<close>

theorem export_renders_unmuted_sources:
  "(case exportGraph r of
      Inl e \<Rightarrow> True
    | Inr oc \<Rightarrow>
        oc_sources oc =
          map (\<lambda>t. \<lparr>os_buffer = the (audioBuffer t), os_gain = channelFader t\<rparr>)
            (filter (\<lambda>t. audioBuffer t \<noteq> None \<and> \<not> isMuted t) (tracks r)) \<and>
        oc_length oc =
          nat (toInteger (to_double (maxDuration (tracks r) * 44100))) mod 2 ^ 32) \<and>
   (maxDuration (tracks (without_muted r)) = maxDuration (tracks r) \<longrightarrow>
      snd (exportMix dsp r) = snd (exportMix dsp (without_muted r)))"
proof -
  have "oc_sources oc =
          map (\<lambda>t. \<lparr>os_buffer = the (audioBuffer t), os_gain = channelFader t\<rparr>)
            (filter (\<lambda>t. audioBuffer t \<noteq> None \<and> \<not> isMuted t) (tracks r)) \<and>
        oc_length oc =
          nat (toInteger (to_double (maxDuration (tracks r) * 44100))) mod 2 ^ 32"
    if "exportGraph r = Inr oc" for oc
    using that by (auto simp: exportGraph_def Let_def renderSources_filter split: if_splits)
  moreover have "snd (exportMix dsp r) = snd (exportMix dsp (without_muted r))"
    if "maxDuration (tracks (without_muted r)) = maxDuration (tracks r)"
    using exportGraph_without_muted [OF that] by (simp add: exportMix_output)
  ultimately show ?thesis
    by (simp split: sum.splits)
qed

theorem export_renders_unmuted_sources_witness:
  "maxDuration (tracks (without_muted muted_shorter)) = maxDuration (tracks muted_shorter) \<and>
   exportGraph muted_shorter =
     Inr \<lparr>oc_numberOfChannels = 2, oc_length = 88200, oc_sampleRate = 44100,
          oc_masterGain = 8 / 10, oc_limiter = masterLimiter demo_recorder,
          oc_sources = [\<lparr>os_buffer = silence 88200, os_gain = 8 / 10\<rparr>]\<rparr> \<and>
   snd (exportMix silent_render muted_shorter) =
     snd (exportMix silent_render (without_muted muted_shorter))"
proof -
  have dur: "maxDuration (tracks (without_muted muted_shorter)) = maxDuration (tracks muted_shorter)"
    by (simp add: muted_shorter_def without_muted_def maxDuration_def newTrack_def setMute_def
        clear_def stop_def duration_def silence_def to_double_1 to_double_2)
  have graph: "exportGraph muted_shorter =
     Inr \<lparr>oc_numberOfChannels = 2, oc_length = 88200, oc_sampleRate = 44100,
          oc_masterGain = 8 / 10, oc_limiter = masterLimiter demo_recorder,
          oc_sources = [\<lparr>os_buffer = silence 88200, os_gain = 8 / 10\<rparr>]\<rparr>"
    by (simp add: muted_shorter_def demo_recorder_def newRecorder_def exportGraph_def
        maxDuration_def renderSources_def newTrack_def setMute_def duration_def silence_def
        toInteger_def Let_def to_double_1 to_double_2 to_double_44100 to_double_88200)
  show ?thesis
    using export_renders_unmuted_sources [of muted_shorter silent_render] dur graph
    by simp
qed

text \<open>
  A single loaded track: two seconds of audio give a context of 88200 frames with
  one source at the fader gain 0.8, before the master gain 0.8 and the limiter; and
  whatever the renderer returns, the file has 4 bytes per frame after its header.
\<close>

lemma wav_data_length_field:
  assumes "numberOfChannels b = 2" and "length_frames b * 4 < 4294967296"
  shows "getUint32 (wavHeader b @ wavData b) 40 True = length_frames b * 2 * 2"
  using assms
  by (simp add: getUint32_def wavHeader_def Let_def unsigned_uint32 [of "length_frames b * 2 * 2"])

lemma exportMix_data_length:
  assumes graph: "exportGraph r = Inr oc" and render: "dsp oc = Some cd"
    and sized: "oc_length oc * 4 < 4294967296"
  shows "\<exists>wav. snd (exportMix dsp r) = Inr wav \<and>
           length wav = 44 + oc_length oc * 2 * 2 \<and>
           getUint32 wav 40 True = oc_length oc * 2 * 2"
proof -
  let ?rb = "\<lparr>numberOfChannels = oc_numberOfChannels oc, length_frames = oc_length oc,
              sampleRate = oc_sampleRate oc, channelData = cd\<rparr>"
  have two: "oc_numberOfChannels oc = 2"
    using graph by (auto simp: exportGraph_def Let_def split: if_splits)
  have "snd (exportMix dsp r) = Inr (wavHeader ?rb @ wavData ?rb)"
    using graph render by (simp add: exportMix_output startRendering_def bufferToWav_bytes)
  moreover have "getUint32 (wavHeader ?rb @ wavData ?rb) 40 True = oc_length oc * 2 * 2"
    using wav_data_length_field [of ?rb] two sized by simp
  moreover have "length (wavHeader ?rb @ wavData ?rb) = 44 + oc_length oc * 2 * 2"
    by (simp add: two)
  ultimately show ?thesis
    by blast
qed

lemma one_track_export_graph:
  "exportGraph one_track_loaded =
     Inr \<lparr>oc_numberOfChannels = 2, oc_length = 88200, oc_sampleRate = 44100,
          oc_masterGain = 8 / 10, oc_limiter = masterLimiter demo_recorder,
          oc_sources = [\<lparr>os_buffer = half_tone, os_gain = 8 / 10\<rparr>]\<rparr>"
proof -
  have wf: "wf_buffer half_tone"
    by (simp add: wf_buffer_def half_tone_def)
  from createReversedBuffer_wf [OF wf] obtain rb where rb: "createReversedBuffer half_tone = Inr rb"
    by blast
  have dur: "duration half_tone = 2"
    by (simp add: duration_def half_tone_def to_double_2)
  have ts: "tracks demo_recorder = [newTrack 0, newTrack 1, newTrack 2, newTrack 3]"
    by (simp add: demo_recorder_def newRecorder_def upt_rec numeral_2_eq_2 numeral_3_eq_3)
  have "tracks one_track_loaded =
          [play 0 0 ((newTrack 0)\<lparr>audioBuffer := Some half_tone, source := None,
                                    loopLength := 2, hasAudio := True,
                                    reversedBuffer := Some rb\<rparr>),
           newTrack 1, newTrack 2, newTrack 3]"
    by (simp add: one_track_loaded_def loadFileToTrack_def rb ts dur Let_def replaced_def)
      (simp add: newTrack_def)
  moreover have "masterGain one_track_loaded = 8 / 10"
    "masterLimiter one_track_loaded = masterLimiter demo_recorder"
    by (simp_all add: one_track_loaded_def loadFileToTrack_def rb ts Let_def)
      (simp add: demo_recorder_def newRecorder_def)
  ultimately show ?thesis
    by (simp add: exportGraph_def maxDuration_def renderSources_def play_def stop_def
        newTrack_def dur toInteger_def Let_def to_double_88200)
qed

text \<open>
  The length of the render is a product of doubles without its fraction: 15 frames
  at 44100 Hz have a duration whose product with 44100 is below 15, and the export
  has 14 frames.
\<close>

lemma fifteen_frames_export:
  "duration (silence 15) * 44100 < 15 \<and>
   map_sum id oc_length (exportGraph fifteen_frames) = Inr 14"
proof -
  have dur: "duration (silence 15) = 6274402746159711 / 18446744073709551616"
    unfolding duration_def silence_def using to_double_15_44100 by simp
  have mx: "maxDuration (tracks fifteen_frames) = duration (silence 15)"
    by (simp add: fifteen_frames_def maxDuration_def newTrack_def dur)
  have len: "to_double (maxDuration (tracks fifteen_frames) * 44100) =
      8444249301319679 / 562949953421312"
    unfolding mx dur by (rule to_double_15_product)
  have "exportGraph fifteen_frames =
      Inr \<lparr>oc_numberOfChannels = 2, oc_length = 14, oc_sampleRate = 44100,
           oc_masterGain = masterGain fifteen_frames,
           oc_limiter = masterLimiter fifteen_frames,
           oc_sources = renderSources (tracks fifteen_frames)\<rparr>"
    unfolding exportGraph_def Let_def
    by (simp add: len toInteger_def) (simp add: mx dur)
  then show ?thesis
    by (simp add: dur)
qed

section \<open>Properties of the tape bus\<close>

lemma single_chain_cases:
  "single_chain s \<Longrightarrow>
   timers s = [] \<or> (\<exists>tid due. timers s = [(tid, due)] \<and> dropoutSchedulerId s = Some tid)"
  by (auto simp: single_chain_def split: list.splits)

lemma setDropouts_zero:
  assumes "single_chain s"
  shows "timers (setDropouts 0 rnd s) = [] \<and> dropoutSchedulerId (setDropouts 0 rnd s) = None \<and>
         dropoutIntensity (setDropouts 0 rnd s) = 0 \<and>
         dropoutLog (setDropouts 0 rnd s) = dropoutLog s"
  using single_chain_cases [OF assms]
  by (auto simp: setDropouts_def clearTimeout_def Let_def split: option.splits)

lemma setDropouts_positive:
  assumes "single_chain s" and "0 < v" and "\<not> bypassed s"
  shows "timers (setDropouts v rnd s) =
           [(nextTimerId s, clock s + max 0 (15000 - 120 * v + rnd * 5000))] \<and>
         dropoutSchedulerId (setDropouts v rnd s) = Some (nextTimerId s) \<and>
         dropoutIntensity (setDropouts v rnd s) = v / 100 \<and>
         clock (setDropouts v rnd s) = clock s \<and>
         bypassed (setDropouts v rnd s) = bypassed s \<and>
         dropoutLog (setDropouts v rnd s) = dropoutLog s"
  using single_chain_cases [OF assms(1)] assms(2,3)
  by (auto simp: setDropouts_def clearTimeout_def scheduleDropout_def setTimeout_def Let_def
      split: option.splits)

lemma setDropouts_full_armed:
  assumes "single_chain s" and "\<not> bypassed s" and "unit_random rnd"
  shows "chain_armed (setDropouts 100 rnd s)"
  using setDropouts_positive [OF assms(1) _ assms(2), of 100 rnd] assms(2,3)
  by (simp add: chain_armed_def unit_random_def)

lemma timersFired_none: "timers s = [] \<Longrightarrow> rs \<noteq> [] \<Longrightarrow> timersFired rs s = None"
  by (cases rs) simp_all

lemma armed_fire:
  assumes "chain_armed s" and "unit_random rnd"
  shows "\<exists>s' tid due. timers s = [(tid, due)] \<and>
           timerFired tid (rd, rp, rnd) s = Some s' \<and> chain_armed s' \<and>
           clock s' = due \<and> 3000 \<le> due - clock s \<and> due - clock s < 8000 \<and>
           (\<exists>ev. dropoutLog s' = dropoutLog s @ [ev] \<and> ev_time ev = due)"
proof -
  from assms(1) obtain tid due where
    t: "timers s = [(tid, due)]" "dropoutSchedulerId s = Some tid"
      "3000 \<le> due - clock s" "due - clock s < 8000" and
    st: "dropoutIntensity s = 1" "\<not> bypassed s"
    by (auto simp: chain_armed_def split: list.splits)
  have "clock s \<le> due"
    using t by simp
  then show ?thesis
    using t st assms(2)
    by (simp add: timerFired_def triggerDropout_def scheduleDropout_def setTimeout_def
        chain_armed_def unit_random_def Let_def max_def)
qed

lemma armed_run:
  assumes "chain_armed s" and "list_all (\<lambda>r. unit_random (snd (snd r))) rs"
  shows "\<exists>s' new. timersFired rs s = Some s' \<and> chain_armed s' \<and>
           dropoutLog s' = dropoutLog s @ new \<and> length new = length rs \<and>
           gaps_within (clock s) (map ev_time new)"
  using assms
proof (induction rs arbitrary: s)
  case Nil
  then show ?case by simp
next
  case (Cons r rs)
  obtain rd rp rnd where r: "r = (rd, rp, rnd)"
    by (cases r) auto
  with Cons.prems have rnd: "unit_random rnd" and rest: "list_all (\<lambda>r. unit_random (snd (snd r))) rs"
    by simp_all
  from armed_fire [OF Cons.prems(1) rnd, of rd rp] obtain s1 tid due ev where
    s1: "timers s = [(tid, due)]" "timerFired tid (rd, rp, rnd) s = Some s1" "chain_armed s1"
      "clock s1 = due" "3000 \<le> due - clock s" "due - clock s < 8000"
      "dropoutLog s1 = dropoutLog s @ [ev]" "ev_time ev = due"
    by blast
  from Cons.IH [OF s1(3) rest] obtain s' new where
    s': "timersFired rs s1 = Some s'" "chain_armed s'" "dropoutLog s' = dropoutLog s1 @ new"
      "length new = length rs" "gaps_within (clock s1) (map ev_time new)"
    by blast
  have "timersFired (r # rs) s = Some s'"
    using r s1 s' by simp
  moreover have "dropoutLog s' = dropoutLog s @ (ev # new)"
    using s1 s' by simp
  moreover have "gaps_within (clock s) (map ev_time (ev # new))"
    using s1 s' by simp
  ultimately show ?case
    using s'(2,4) by (metis length_Cons)
qed

lemma single_chain_new: "single_chain newTapeBus \<and> \<not> bypassed newTapeBus"
  by (simp add: single_chain_def newTapeBus_def)

lemma single_chain_setDropouts: "single_chain s \<Longrightarrow> single_chain (setDropouts v rnd s)"
  by (drule single_chain_cases)
    (auto simp: single_chain_def setDropouts_def clearTimeout_def scheduleDropout_def
      setTimeout_def Let_def split: option.splits)

lemma single_chain_timerFired:
  "single_chain s \<Longrightarrow> timerFired tid rnds s = Some s' \<Longrightarrow> single_chain s'"
  by (drule single_chain_cases)
    (auto simp: single_chain_def timerFired_def triggerDropout_def scheduleDropout_def
      setTimeout_def Let_def split: option.splits if_splits prod.splits)

lemma single_chain_setBypass:
  "single_chain s \<Longrightarrow> b \<or> timers s = [] \<Longrightarrow> single_chain (setBypass b rnd s)"
  by (drule single_chain_cases)
    (auto simp: single_chain_def setBypass_def clearTimeout_def scheduleDropout_def
      setTimeout_def Let_def split: option.splits)

text \<open>
  On a bus whose only pending timeout is the one it has recorded,
  \<open>setDropouts(0)\<close> cancels the pending dropout and leaves no timeout, so that no
  dropout fires; \<open>setDropouts(v)\<close> with \<open>v > 0\<close> on a bus that is not bypassed
  schedules the next dropout \<open>(15000 - 120 v) + 5000 rnd\<close> ms ahead; and at \<open>v = 100\<close>,
  with random numbers in \<open>[0, 1)\<close>, every dropout comes at least 3000 and less than
  8000 ms after the one before it (the first one after the call).
\<close>

theorem dropout_scheduling:
  assumes chain: "single_chain s"
  shows "timers (setDropouts 0 rnd s) = [] \<and>
         dropoutSchedulerId (setDropouts 0 rnd s) = None \<and>
         dropoutLog (setDropouts 0 rnd s) = dropoutLog s \<and>
         (\<forall>tid rnds. timerFired tid rnds (setDropouts 0 rnd s) = None) \<and>
         (\<forall>rs. rs \<noteq> [] \<longrightarrow> timersFired rs (setDropouts 0 rnd s) = None) \<and>
         (0 < v \<and> v \<le> 100 \<and> \<not> bypassed s \<and> unit_random rnd \<longrightarrow>
            timers (setDropouts v rnd s) =
              [(nextTimerId s, clock s + ((15000 - 120 * v) + rnd * 5000))]) \<and>
         (\<not> bypassed s \<and> unit_random rnd \<and> list_all (\<lambda>r. unit_random (snd (snd r))) rs \<longrightarrow>
            (\<exists>s' new. timersFired rs (setDropouts 100 rnd s) = Some s' \<and>
               dropoutLog s' = dropoutLog s @ new \<and> length new = length rs \<and>
               gaps_within (clock s) (map ev_time new)))"
proof -
  have zero: "timers (setDropouts 0 rnd s) = []" "dropoutSchedulerId (setDropouts 0 rnd s) = None"
    "dropoutLog (setDropouts 0 rnd s) = dropoutLog s"
    using setDropouts_zero [OF chain] by simp_all
  have nofire: "\<forall>tid rnds. timerFired tid rnds (setDropouts 0 rnd s) = None"
    using zero by (simp add: timerFired_def)
  have never: "\<forall>rs. rs \<noteq> [] \<longrightarrow> timersFired rs (setDropouts 0 rnd s) = None"
    using zero timersFired_none by blast
  have draw: "timers (setDropouts v rnd s) =
      [(nextTimerId s, clock s + ((15000 - 120 * v) + rnd * 5000))]"
    if "0 < v" "v \<le> 100" "\<not> bypassed s" "unit_random rnd"
  proof -
    have "0 \<le> 15000 - 120 * v + rnd * 5000"
      using that by (simp add: unit_random_def)
    then show ?thesis
      using setDropouts_positive [OF chain that(1,3), of rnd] by (simp add: max_def)
  qed
  have full: "\<exists>s' new. timersFired rs (setDropouts 100 rnd s) = Some s' \<and>
               dropoutLog s' = dropoutLog s @ new \<and> length new = length rs \<and>
               gaps_within (clock s) (map ev_time new)"
    if "\<not> bypassed s" "unit_random rnd" "list_all (\<lambda>r. unit_random (snd (snd r))) rs"
  proof -
    have armed: "chain_armed (setDropouts 100 rnd s)"
      using setDropouts_full_armed [OF chain that(1,2)] .
    have same: "clock (setDropouts 100 rnd s) = clock s"
      "dropoutLog (setDropouts 100 rnd s) = dropoutLog s"
      using setDropouts_positive [OF chain _ that(1), of 100 rnd] by simp_all
    from armed_run [OF armed that(3)] show ?thesis
      unfolding same by blast
  qed
  show ?thesis
    using zero nofire never draw full by blast
qed

theorem dropout_scheduling_witness:
  "single_chain (setDropouts 50 (1 / 2) newTapeBus) \<and>
   (0 < (50::real) \<and> (50::real) \<le> 100 \<and> \<not> bypassed (setDropouts 50 (1 / 2) newTapeBus)) \<and>
   unit_random (1 / 4) \<and>
   list_all (\<lambda>r. unit_random (snd (snd r))) [(0, 0, 0), (1 / 2, 1 / 2, 3 / 4)] \<and>
   timers (setDropouts 0 (1 / 4) (setDropouts 50 (1 / 2) newTapeBus)) = [] \<and>
   timersFired [(0, 0, 0)] (setDropouts 0 (1 / 4) (setDropouts 50 (1 / 2) newTapeBus)) = None \<and>
   timers (setDropouts 50 (1 / 4) (setDropouts 50 (1 / 2) newTapeBus)) = [(2, 10250)] \<and>
   (\<exists>s' new. timersFired [(0, 0, 0), (1 / 2, 1 / 2, 3 / 4)]
                (setDropouts 100 (1 / 4) (setDropouts 50 (1 / 2) newTapeBus)) = Some s' \<and>
      length new = 2 \<and> dropoutLog s' = new \<and> gaps_within 0 (map ev_time new))"
proof -
  let ?s = "setDropouts 50 (1 / 2) newTapeBus"
  have st: "timers ?s = [(1, 11500)]" "dropoutSchedulerId ?s = Some 1" "\<not> bypassed ?s"
    "nextTimerId ?s = 2" "clock ?s = 0" "dropoutLog ?s = []"
    by (simp_all add: setDropouts_def scheduleDropout_def setTimeout_def newTapeBus_def Let_def)
  have chain: "single_chain ?s"
    by (simp add: single_chain_def st)
  have rnd: "unit_random (1 / 4)"
    by (simp add: unit_random_def)
  have rs: "list_all (\<lambda>r. unit_random (snd (snd r))) [(0, 0, 0), (1 / 2, 1 / 2, 3 / 4)]"
    by (simp add: unit_random_def)
  note inst = dropout_scheduling [OF chain, of "1 / 4" 50 "[(0, 0, 0), (1 / 2, 1 / 2, 3 / 4)]"]
  have zero: "timers (setDropouts 0 (1 / 4) ?s) = []"
    using inst by blast
  have never: "timersFired [(0, 0, 0)] (setDropouts 0 (1 / 4) ?s) = None"
    using inst by blast
  have draw: "timers (setDropouts 50 (1 / 4) ?s) = [(2, 10250)]"
    using inst st rnd by simp
  have full: "\<exists>s' new. timersFired [(0, 0, 0), (1 / 2, 1 / 2, 3 / 4)]
                (setDropouts 100 (1 / 4) ?s) = Some s' \<and>
      length new = 2 \<and> dropoutLog s' = new \<and> gaps_within 0 (map ev_time new)"
    using inst st rnd rs by auto
  show ?thesis
    using chain st(3) rnd rs zero never draw full by simp
qed

text \<open>
  Claim C8 says that at dropout intensity 0 no dropout ever fires and the pending
  one is cancelled. The program does not keep to one pending timeout:
  \<open>setBypass(false)\<close> schedules a dropout without cancelling the one that is pending. After
  \<open>setDropouts(50)\<close>, \<open>setBypass(false)\<close> and \<open>setDropouts(0)\<close> the intensity is 0,
  the recorded timeout is cancelled, and the timeout of the first call is still
  pending; when it comes due, a dropout of depth 0.1 and 10 ms is written to the
  dropout gain.
\<close>

theorem dropout_fires_at_zero_intensity:
  "timers (setBypass False (1 / 4) (setDropouts 50 (1 / 2) newTapeBus)) =
     [(1, 11500), (2, 10250)] \<and>
   dropoutIntensity orphan_timeout = 0 \<and>
   \<not> bypassed orphan_timeout \<and>
   dropoutSchedulerId orphan_timeout = None \<and>
   timers orphan_timeout = [(1, 11500)] \<and>
   map_option dropoutLog (timerFired 1 (0, 0, 0) orphan_timeout) =
     Some [\<lparr>ev_time = 11500, ev_duration = 1 / 100, ev_depth = 1 / 10\<rparr>]"
  by (simp add: orphan_timeout_def setDropouts_def setBypass_def scheduleDropout_def
      setTimeout_def clearTimeout_def timerFired_def triggerDropout_def newTapeBus_def
      Let_def)

end
